theory Spec2Isabelle
  imports Complex_Main
begin

section \<open>Errors\<close>

text \<open>
  The exceptions a call into the notebook's two classes can raise.  The tensor library
  reports every shape problem as a RuntimeError; the \<open>assert\<close> statements of
  \<open>prepare_mask\<close> raise AssertionError; unpacking \<open>query.shape\<close> into three names
  raises ValueError; \<open>shape[k]\<close> beyond the rank raises IndexError; \<open>d_model // 0\<close>
  and \<open>1 / 0.0\<close> raise ZeroDivisionError.
\<close>

datatype error = AssertionError | RuntimeError | ValueError | IndexError | ZeroDivisionError

section \<open>Tensors\<close>

text \<open>
  A tensor is its shape and its elements in row-major order (the order \<open>view\<close> and
  \<open>reshape\<close> preserve).  Strides and storage sharing are not modelled: every tensor is
  a value.
\<close>

record 'a tensor =
  shape :: "nat list"
  elems :: "'a list"

definition numel :: "nat list \<Rightarrow> nat" where
  "numel sh = prod_list sh"

definition wf_tensor :: "'a tensor \<Rightarrow> bool" where
  "wf_tensor T = (length (elems T) = numel (shape T))"

text \<open>Row-major offset of a multi-index, and the multi-index of an offset.\<close>

fun ravel :: "nat list \<Rightarrow> nat list \<Rightarrow> nat" where
  "ravel (n # ns) (i # is) = i * prod_list ns + ravel ns is"
| "ravel _ _ = 0"

fun unravel :: "nat list \<Rightarrow> nat \<Rightarrow> nat list" where
  "unravel [] k = []"
| "unravel (n # ns) k = (k div prod_list ns) # unravel ns (k mod prod_list ns)"

definition indices :: "nat list \<Rightarrow> nat list list" where
  "indices sh = map (unravel sh) [0..<numel sh]"

definition valid_index :: "nat list \<Rightarrow> nat list \<Rightarrow> bool" where
  "valid_index sh idx = list_all2 (\<lambda>i n. i < n) idx sh"

definition elem_at :: "'a tensor \<Rightarrow> nat list \<Rightarrow> 'a" where
  "elem_at T idx = elems T ! ravel (shape T) idx"

definition tabulate :: "nat list \<Rightarrow> (nat list \<Rightarrow> 'a) \<Rightarrow> 'a tensor" where
  "tabulate sh f = \<lparr>shape = sh, elems = map f (indices sh)\<rparr>"

definition zeros :: "nat list \<Rightarrow> 'a::zero tensor" where
  "zeros sh = \<lparr>shape = sh, elems = replicate (numel sh) 0\<rparr>"

text \<open>The rows along the last axis: \<open>rows n T\<close> cuts the elements into runs of \<open>n\<close>.\<close>

definition rows :: "nat \<Rightarrow> 'a tensor \<Rightarrow> 'a list list" where
  "rows n T = map (\<lambda>r. take n (drop (r * n) (elems T))) [0..<numel (butlast (shape T))]"

subsection \<open>Broadcasting\<close>

text \<open>
  Two shapes broadcast when, aligned at their last axis, every pair of sizes is equal or
  holds a 1; the missing leading axes of the shorter shape count as 1.
\<close>

fun broadcast_rev :: "nat list \<Rightarrow> nat list \<Rightarrow> nat list option" where
  "broadcast_rev [] ys = Some ys"
| "broadcast_rev xs [] = Some xs"
| "broadcast_rev (x # xs) (y # ys) =
     (if x = y \<or> x = 1 \<or> y = 1
      then map_option ((#) (if x = 1 then y else x)) (broadcast_rev xs ys)
      else None)"

definition broadcast_shapes :: "nat list \<Rightarrow> nat list \<Rightarrow> nat list option" where
  "broadcast_shapes a b = map_option rev (broadcast_rev (rev a) (rev b))"

text \<open>
  Reading a tensor of shape \<open>sh\<close> at an index of the broadcast shape: the leading axes
  the tensor lacks are dropped and an axis of size 1 is read at 0.
\<close>

definition bc_index :: "nat list \<Rightarrow> nat list \<Rightarrow> nat list" where
  "bc_index sh idx = map2 (\<lambda>n i. if n = 1 then 0 else i) sh (drop (length idx - length sh) idx)"

definition elem_at_bc :: "'a tensor \<Rightarrow> nat list \<Rightarrow> 'a" where
  "elem_at_bc T idx = elem_at T (bc_index (shape T) idx)"

section \<open>Floating-point values\<close>

text \<open>
  The elements of a tensor are float32 numbers, the library's default: a finite number,
  an infinity, or NaN.  The special values follow IEEE 754, and so does overflow: a
  finite result whose magnitude reaches \<open>2^128 - 2^103\<close> becomes an infinity.  Below
  that threshold a result keeps its exact value: rounding inside the range and the sign
  of zero are not modelled.  The parameters of the layers are finite, hence of type
  \<^typ>\<open>real\<close>; the inputs of a call may hold any value.
\<close>

datatype fval = Fin real | PInf | NInf | NaN

definition overflow_threshold :: real where
  "overflow_threshold = 2 ^ 128 - 2 ^ 103"

definition to_float :: "real \<Rightarrow> fval" where
  "to_float x =
     (if overflow_threshold \<le> x then PInf
      else if x \<le> - overflow_threshold then NInf
      else Fin x)"

fun fneg :: "fval \<Rightarrow> fval" where
  "fneg (Fin x) = Fin (- x)"
| "fneg PInf = NInf"
| "fneg NInf = PInf"
| "fneg NaN = NaN"

fun fadd :: "fval \<Rightarrow> fval \<Rightarrow> fval" where
  "fadd (Fin x) (Fin y) = to_float (x + y)"
| "fadd NaN _ = NaN"
| "fadd _ NaN = NaN"
| "fadd PInf NInf = NaN"
| "fadd NInf PInf = NaN"
| "fadd PInf _ = PInf"
| "fadd _ PInf = PInf"
| "fadd NInf _ = NInf"
| "fadd _ NInf = NInf"

definition fsub :: "fval \<Rightarrow> fval \<Rightarrow> fval" where
  "fsub a b = fadd a (fneg b)"

text \<open>An infinity times a finite number: its sign decides, and \<open>inf * 0\<close> is NaN.\<close>

definition inf_times :: "fval \<Rightarrow> real \<Rightarrow> fval" where
  "inf_times i x = (if x = 0 then NaN else if 0 < x then i else fneg i)"

fun fmul :: "fval \<Rightarrow> fval \<Rightarrow> fval" where
  "fmul (Fin x) (Fin y) = to_float (x * y)"
| "fmul NaN _ = NaN"
| "fmul _ NaN = NaN"
| "fmul (Fin x) i = inf_times i x"
| "fmul i (Fin y) = inf_times i y"
| "fmul PInf PInf = PInf"
| "fmul NInf NInf = PInf"
| "fmul PInf NInf = NInf"
| "fmul NInf PInf = NInf"

fun fdiv :: "fval \<Rightarrow> fval \<Rightarrow> fval" where
  "fdiv (Fin x) (Fin y) =
     (if y \<noteq> 0 then to_float (x / y)
      else if x = 0 then NaN else if 0 < x then PInf else NInf)"
| "fdiv NaN _ = NaN"
| "fdiv _ NaN = NaN"
| "fdiv (Fin x) PInf = Fin 0"
| "fdiv (Fin x) NInf = Fin 0"
| "fdiv PInf (Fin y) = (if 0 \<le> y then PInf else NInf)"
| "fdiv NInf (Fin y) = (if 0 \<le> y then NInf else PInf)"
| "fdiv PInf PInf = NaN"
| "fdiv PInf NInf = NaN"
| "fdiv NInf PInf = NaN"
| "fdiv NInf NInf = NaN"

fun fexp :: "fval \<Rightarrow> fval" where
  "fexp (Fin x) = to_float (exp x)"
| "fexp PInf = PInf"
| "fexp NInf = Fin 0"
| "fexp NaN = NaN"

fun fmax :: "fval \<Rightarrow> fval \<Rightarrow> fval" where
  "fmax (Fin x) (Fin y) = Fin (max x y)"
| "fmax NaN _ = NaN"
| "fmax _ NaN = NaN"
| "fmax PInf _ = PInf"
| "fmax _ PInf = PInf"
| "fmax NInf b = b"
| "fmax a NInf = a"

instantiation fval :: "{zero, plus, times}"
begin

definition zero_fval :: fval where
  "zero_fval = Fin 0"

definition plus_fval :: "fval \<Rightarrow> fval \<Rightarrow> fval" where
  "plus_fval a b = fadd a b"

definition times_fval :: "fval \<Rightarrow> fval \<Rightarrow> fval" where
  "times_fval a b = fmul a b"

instance ..

end

text \<open>
  A sum adds its terms in index order.  The library is free to add them in another
  order, which can matter only where a partial sum overflows.
\<close>

definition sum_elems :: "'a::{zero,plus} list \<Rightarrow> 'a" where
  "sum_elems xs = foldr (+) xs 0"

section \<open>The tensor library's operations\<close>

subsection \<open>\<open>view\<close> and \<open>reshape\<close>\<close>

text \<open>
  The sizes passed to \<open>view\<close> are Python integers.  One of them may be \<open>-1\<close> and is
  then inferred from the number of elements; any other negative size, a second \<open>-1\<close>,
  a \<open>-1\<close> beside a size 0, or sizes whose product is not the number of elements are
  refused.
\<close>

definition infer_size :: "int list \<Rightarrow> nat \<Rightarrow> error + nat list" where
  "infer_size dims n =
     (if list_ex (\<lambda>d. d < - 1) dims then Inl RuntimeError
      else if 1 < length (filter (\<lambda>d. d = - 1) dims) then Inl RuntimeError
      else
        let known = prod_list (map nat (filter (\<lambda>d. d \<noteq> - 1) dims)) in
        if list_ex (\<lambda>d. d = - 1) dims then
          (if known = 0 then Inl RuntimeError
           else if n mod known \<noteq> 0 then Inl RuntimeError
           else Inr (map (\<lambda>d. if d = - 1 then n div known else nat d) dims))
        else if known = n then Inr (map nat dims)
        else Inl RuntimeError)"

definition view :: "'a tensor \<Rightarrow> int list \<Rightarrow> error + 'a tensor" where
  "view T dims =
     (case infer_size dims (numel (shape T)) of
        Inl e \<Rightarrow> Inl e
      | Inr sh \<Rightarrow> Inr (T\<lparr>shape := sh\<rparr>))"

text \<open>
  \<open>reshape\<close> returns the elements in the same row-major order under the new shape; it
  differs from \<open>view\<close> only in copying where the strides demand it.
\<close>

definition reshape :: "'a tensor \<Rightarrow> int list \<Rightarrow> error + 'a tensor" where
  "reshape T dims = view T dims"

definition unsqueeze_last :: "'a tensor \<Rightarrow> 'a tensor" where
  "unsqueeze_last T = T\<lparr>shape := shape T @ [1]\<rparr>"

subsection \<open>\<open>mask == 0\<close> and \<open>masked_fill\<close>\<close>

definition eq_scalar :: "'a tensor \<Rightarrow> 'a \<Rightarrow> bool tensor" where
  "eq_scalar T c = \<lparr>shape = shape T, elems = map (\<lambda>x. x = c) (elems T)\<rparr>"

text \<open>
  The out-of-place \<open>masked_fill\<close> expands the tensor and the mask to their common
  broadcast shape and writes the fill value where the mask holds.
\<close>

definition masked_fill :: "fval tensor \<Rightarrow> bool tensor \<Rightarrow> fval \<Rightarrow> error + fval tensor" where
  "masked_fill T msk c =
     (case broadcast_shapes (shape msk) (shape T) of
        None \<Rightarrow> Inl RuntimeError
      | Some sh \<Rightarrow>
          Inr (tabulate sh (\<lambda>idx. if elem_at_bc msk idx then c else elem_at_bc T idx)))"

subsection \<open>\<open>nn.Softmax(dim=-1)\<close>\<close>

text \<open>
  Along the last axis: subtract the row's maximum, exponentiate, divide by the sum.  A
  tensor without axes is one row of length 1.
\<close>

definition softmax_row :: "fval list \<Rightarrow> fval list" where
  "softmax_row xs =
     (let mx = foldr fmax xs NInf;
          es = map (\<lambda>x. fexp (fsub x mx)) xs;
          s = sum_elems es
      in map (\<lambda>e. fdiv e s) es)"

definition softmax :: "fval tensor \<Rightarrow> fval tensor" where
  "softmax T =
     (if shape T = [] then T\<lparr>elems := softmax_row (elems T)\<rparr>
      else T\<lparr>elems := concat (map softmax_row (rows (last (shape T)) T))\<rparr>)"

subsection \<open>\<open>nn.Dropout\<close>\<close>

text \<open>
  The constructor refuses a probability outside \<open>[0, 1]\<close>; a new module is in training
  mode.  In training mode each element is multiplied by its noise: \<open>1 / (1 - p)\<close> where
  the Bernoulli draw \<open>keep\<close> retains it, 0 where it drops it, and 0 everywhere when
  \<open>p = 1\<close>.  The draw is an argument of the model.
\<close>

record Dropout =
  p :: real
  training :: bool

definition Dropout_init :: "real \<Rightarrow> error + Dropout" where
  "Dropout_init prob =
     (if prob < 0 \<or> 1 < prob then Inl ValueError else Inr \<lparr>p = prob, training = True\<rparr>)"

definition noise :: "Dropout \<Rightarrow> (nat \<Rightarrow> bool) \<Rightarrow> nat \<Rightarrow> real" where
  "noise d keep k = (if p d = 1 then 0 else if keep k then 1 / (1 - p d) else 0)"

definition Dropout_forward :: "Dropout \<Rightarrow> (nat \<Rightarrow> bool) \<Rightarrow> fval tensor \<Rightarrow> fval tensor" where
  "Dropout_forward d keep x =
     (if \<not> training d \<or> p d = 0 \<or> elems x = [] then x
      else x\<lparr>elems := map (\<lambda>(k, e). e * Fin (noise d keep k)) (enumerate 0 (elems x))\<rparr>)"

subsection \<open>\<open>nn.Linear\<close>\<close>

text \<open>
  The weight has shape \<open>(out_features, in_features)\<close>.  The constructor allocates it and
  fails on a negative size; the initial values are drawn at random and are arguments of
  the model (\<open>w\<close> for the weight, \<open>b\<close> for the bias, by row-major position).
\<close>

record 'a Linear =
  in_features :: int
  out_features :: int
  weight :: "'a tensor"
  bias :: "'a tensor option"

definition Linear_init ::
  "int \<Rightarrow> int \<Rightarrow> bool \<Rightarrow> (nat \<Rightarrow> real) \<Rightarrow> (nat \<Rightarrow> real) \<Rightarrow> error + real Linear" where
  "Linear_init inp out with_bias w b =
     (if inp < 0 \<or> out < 0 then Inl RuntimeError
      else Inr \<lparr>in_features = inp, out_features = out,
                weight = \<lparr>shape = [nat out, nat inp], elems = map w [0..<nat out * nat inp]\<rparr>,
                bias = (if with_bias then Some \<lparr>shape = [nat out], elems = map b [0..<nat out]\<rparr>
                        else None)\<rparr>)"

text \<open>Output feature \<open>j\<close> of one input row: the dot product with row \<open>j\<close> of the weight, plus the bias.\<close>

definition affine :: "real Linear \<Rightarrow> nat \<Rightarrow> fval list \<Rightarrow> nat \<Rightarrow> fval" where
  "affine L inp r j =
     (let dot = sum_elems (map2 (*) r (map Fin (take inp (drop (j * inp) (elems (weight L))))))
      in case bias L of None \<Rightarrow> dot | Some bs \<Rightarrow> dot + Fin (elems bs ! j))"

definition Linear_forward :: "real Linear \<Rightarrow> fval tensor \<Rightarrow> error + fval tensor" where
  "Linear_forward L x =
     (case shape (weight L) of
        [out, inp] \<Rightarrow>
          if shape x \<noteq> [] \<and> last (shape x) = inp
          then Inr \<lparr>shape = butlast (shape x) @ [out],
                    elems = concat (map (\<lambda>r. map (affine L inp r) [0..<out]) (rows inp x))\<rparr>
          else Inl RuntimeError
      | _ \<Rightarrow> Inl RuntimeError)"

subsection \<open>\<open>torch.einsum\<close> on two operands\<close>

text \<open>
  The equation is \<open>a,b->c\<close>; blanks are ignored.  Each letter names an axis.  The sizes an
  equation gives one letter must be equal or 1 (an axis of size 1 is read at 0), a letter
  of the output must occur in an operand, and the letters absent from the output are
  summed over.  The program's two equations repeat no letter within an operand, and the
  model does not cover an equation that does.
\<close>

definition parse_equation :: "string \<Rightarrow> string \<times> string \<times> string" where
  "parse_equation eq =
     (let s = filter (\<lambda>c. c \<noteq> CHR '' '') eq;
          la = takeWhile (\<lambda>c. c \<noteq> CHR '','') s;
          rest = drop (length la + 1) s;
          lb = takeWhile (\<lambda>c. c \<noteq> CHR ''-'') rest;
          lo = drop (length lb + 2) rest
      in (la, lb, lo))"

definition label_dims :: "string \<Rightarrow> nat list \<Rightarrow> string \<Rightarrow> nat list \<Rightarrow> char \<Rightarrow> nat list" where
  "label_dims la sa lb sb c = map snd (filter (\<lambda>cn. fst cn = c) (zip la sa @ zip lb sb))"

definition label_size :: "nat list \<Rightarrow> nat option" where
  "label_size ns =
     (case filter (\<lambda>n. n \<noteq> 1) ns of
        [] \<Rightarrow> Some 1
      | n # rest \<Rightarrow> if list_all (\<lambda>k. k = n) rest then Some n else None)"

definition label_sizes :: "string \<Rightarrow> nat list \<Rightarrow> string \<Rightarrow> nat list \<Rightarrow> string \<Rightarrow> nat list option" where
  "label_sizes la sa lb sb ls = those (map (\<lambda>c. label_size (label_dims la sa lb sb c)) ls)"

definition lookup_label :: "(char \<times> nat) list \<Rightarrow> char \<Rightarrow> nat" where
  "lookup_label env c = (case map_of env c of Some i \<Rightarrow> i | None \<Rightarrow> 0)"

definition operand_index :: "(char \<times> nat) list \<Rightarrow> string \<Rightarrow> nat list \<Rightarrow> nat list" where
  "operand_index env ls sh = map2 (\<lambda>c n. if n = 1 then 0 else lookup_label env c) ls sh"

text \<open>The sizes of the output's axes and of the summed axes, or the library's refusal.\<close>

definition einsum_sizes :: "string \<Rightarrow> nat list \<Rightarrow> nat list \<Rightarrow> error + nat list \<times> nat list" where
  "einsum_sizes eq sa sb =
     (case parse_equation eq of (la, lb, lo) \<Rightarrow>
        if length la \<noteq> length sa \<or> length lb \<noteq> length sb then Inl RuntimeError
        else if \<not> list_all (\<lambda>c. c \<in> set (la @ lb)) lo then Inl RuntimeError
        else
          let sl = filter (\<lambda>c. c \<notin> set lo) (remdups (la @ lb)) in
          (case (label_sizes la sa lb sb lo, label_sizes la sa lb sb sl) of
             (Some so, Some ss) \<Rightarrow> Inr (so, ss)
           | _ \<Rightarrow> Inl RuntimeError))"

definition einsum :: "string \<Rightarrow> 'a::{zero,plus,times} tensor \<Rightarrow> 'a tensor \<Rightarrow> error + 'a tensor" where
  "einsum eq A B =
     (case einsum_sizes eq (shape A) (shape B) of
        Inl e \<Rightarrow> Inl e
      | Inr (so, ss) \<Rightarrow>
          (case parse_equation eq of (la, lb, lo) \<Rightarrow>
             let sl = filter (\<lambda>c. c \<notin> set lo) (remdups (la @ lb)) in
             Inr (tabulate so (\<lambda>oi. sum_elems (map (\<lambda>si.
                    let env = zip lo oi @ zip sl si
                    in elem_at A (operand_index env la (shape A)) *
                       elem_at B (operand_index env lb (shape B))) (indices ss))))))"

text \<open>A tensor times a Python number.\<close>

definition scale_by :: "fval tensor \<Rightarrow> real \<Rightarrow> fval tensor" where
  "scale_by T c = T\<lparr>elems := map (\<lambda>x. x * Fin c) (elems T)\<rparr>"

section \<open>The notebook's classes\<close>

definition and_then :: "error + 'a \<Rightarrow> ('a \<Rightarrow> error + 'b) \<Rightarrow> error + 'b" where
  "and_then r f = (case r of Inl e \<Rightarrow> Inl e | Inr x \<Rightarrow> f x)"

text \<open>\<open>shape[k]\<close> of a \<open>torch.Size\<close>: IndexError beyond the rank.\<close>

definition shape_get :: "nat list \<Rightarrow> nat \<Rightarrow> error + nat" where
  "shape_get sh k = (if k < length sh then Inr (sh ! k) else Inl IndexError)"

subsection \<open>PrepareForMultiHeadAttention\<close>

record PrepareForMultiHeadAttention =
  linear :: "real Linear"
  n_heads :: int
  d_heads :: int

definition PrepareForMultiHeadAttention_init ::
  "int \<Rightarrow> int \<Rightarrow> int \<Rightarrow> bool \<Rightarrow> (nat \<Rightarrow> real) \<Rightarrow> (nat \<Rightarrow> real)
     \<Rightarrow> error + PrepareForMultiHeadAttention" where
  "PrepareForMultiHeadAttention_init d_model nh dh with_bias w b =
     and_then (Linear_init d_model (nh * dh) with_bias w b)
       (\<lambda>l. Inr \<lparr>linear = l, n_heads = nh, d_heads = dh\<rparr>)"

definition PrepareForMultiHeadAttention_forward ::
  "PrepareForMultiHeadAttention \<Rightarrow> fval tensor \<Rightarrow> error + fval tensor" where
  "PrepareForMultiHeadAttention_forward pr x =
     (let head_shape = butlast (shape x) in
      and_then (Linear_forward (linear pr) x)
        (\<lambda>y. view y (map int head_shape @ [n_heads pr, d_heads pr])))"

subsection \<open>MultiHeadAttention\<close>

record MultiHeadAttention =
  n_features :: int
  mha_n_heads :: int
  query_prep :: PrepareForMultiHeadAttention
  key_prep :: PrepareForMultiHeadAttention
  value_prep :: PrepareForMultiHeadAttention
  output_layer :: "real Linear"
  dropout :: Dropout
  scale :: real
  attn :: "fval tensor option"

text \<open>
  The constructor, statement by statement.  \<open>rnd k\<close> supplies the random initial values
  of the \<open>k\<close>-th parameter tensor.  \<open>math.sqrt\<close> refuses a negative number with a
  ValueError, and \<open>1 / 0.0\<close> is a ZeroDivisionError.
\<close>

definition MultiHeadAttention_init ::
  "int \<Rightarrow> int \<Rightarrow> real \<Rightarrow> bool \<Rightarrow> (nat \<Rightarrow> nat \<Rightarrow> real) \<Rightarrow> error + MultiHeadAttention" where
  "MultiHeadAttention_init nh d_model dropout_prob with_bias rnd =
     (if nh = 0 then Inl ZeroDivisionError
      else
        let nf = d_model div nh in
        and_then (PrepareForMultiHeadAttention_init d_model nh nf with_bias (rnd 0) (rnd 1)) (\<lambda>q.
        and_then (PrepareForMultiHeadAttention_init d_model nh nf with_bias (rnd 2) (rnd 3)) (\<lambda>k.
        and_then (PrepareForMultiHeadAttention_init d_model nh nf True (rnd 4) (rnd 5)) (\<lambda>v.
        and_then (Linear_init d_model d_model True (rnd 6) (rnd 7)) (\<lambda>out.
        and_then (Dropout_init dropout_prob) (\<lambda>dr.
          if nf < 0 then Inl ValueError
          else if nf = 0 then Inl ZeroDivisionError
          else Inr \<lparr>n_features = nf, mha_n_heads = nh, query_prep = q, key_prep = k,
                    value_prep = v, output_layer = out, dropout = dr,
                    scale = 1 / sqrt (real_of_int nf), attn = None\<rparr>))))))"

text \<open>\<open>module.eval()\<close> and \<open>module.train()\<close> reach the dropout submodule, the only one whose
  behaviour depends on the mode.\<close>

definition set_training :: "bool \<Rightarrow> MultiHeadAttention \<Rightarrow> MultiHeadAttention" where
  "set_training mode m = m\<lparr>dropout := (dropout m)\<lparr>training := mode\<rparr>\<rparr>"

definition get_scores :: "fval tensor \<Rightarrow> fval tensor \<Rightarrow> error + fval tensor" where
  "get_scores q k = einsum ''ibhd,jbhd->ibhj'' q k"

text \<open>
  The three assertions in order (assertions enabled, the interpreter's default), with
  Python's short-circuit \<open>or\<close>, then \<open>mask.unsqueeze(-1)\<close>.
\<close>

definition prepare_mask :: "'a tensor \<Rightarrow> nat list \<Rightarrow> nat list \<Rightarrow> error + 'a tensor" where
  "prepare_mask msk query_shape key_shape =
     and_then (shape_get (shape msk) 0) (\<lambda>m0.
     and_then (if m0 = 1 then Inr True
               else and_then (shape_get query_shape 0) (\<lambda>q0. Inr (m0 = q0))) (\<lambda>ok0.
     if \<not> ok0 then Inl AssertionError else
     and_then (shape_get (shape msk) 1) (\<lambda>m1.
     and_then (shape_get key_shape 0) (\<lambda>k0.
     if m1 \<noteq> k0 then Inl AssertionError else
     and_then (shape_get (shape msk) 2) (\<lambda>m2.
     and_then (if m2 = 1 then Inr True
               else and_then (shape_get query_shape 1) (\<lambda>q1. Inr (m2 = q1))) (\<lambda>ok2.
     if \<not> ok2 then Inl AssertionError else
     Inr (unsqueeze_last msk)))))))"

text \<open>
  \<open>forward\<close> up to the masking (notebook lines 136 to 149): the masked scores, and the
  projected value that the aggregation uses later.  The mask is a tensor of numbers; a
  boolean mask is its values 0 and 1.
\<close>

definition forward_scores ::
  "MultiHeadAttention \<Rightarrow> fval tensor \<Rightarrow> fval tensor \<Rightarrow> fval tensor \<Rightarrow> real tensor option
     \<Rightarrow> error + fval tensor \<times> fval tensor" where
  "forward_scores m query key val msk =
     (if length (shape query) \<noteq> 3 then Inl ValueError
      else
        and_then (case msk of
                    None \<Rightarrow> Inr None
                  | Some mk \<Rightarrow> and_then (prepare_mask mk (shape query) (shape key))
                                (\<lambda>mk'. Inr (Some mk'))) (\<lambda>msk'.
        and_then (PrepareForMultiHeadAttention_forward (query_prep m) query) (\<lambda>q.
        and_then (PrepareForMultiHeadAttention_forward (key_prep m) key) (\<lambda>k.
        and_then (PrepareForMultiHeadAttention_forward (value_prep m) val) (\<lambda>v.
        and_then (get_scores q k) (\<lambda>s.
        let scores = scale_by s (scale m) in
        and_then (case msk' of
                    None \<Rightarrow> Inr scores
                  | Some mk' \<Rightarrow> masked_fill scores (eq_scalar mk' 0) NInf) (\<lambda>scores'.
        Inr (scores', v))))))))"

text \<open>
  Line 151: the normalized weights, the tensor handed to \<open>tracker.add\<close>.  The tracker
  belongs to another library; its call is taken to return and has no part in the result.
\<close>

definition forward_attn ::
  "MultiHeadAttention \<Rightarrow> fval tensor \<Rightarrow> fval tensor \<Rightarrow> fval tensor \<Rightarrow> real tensor option
     \<Rightarrow> error + fval tensor \<times> fval tensor" where
  "forward_attn m query key val msk =
     and_then (forward_scores m query key val msk) (\<lambda>(scores, v). Inr (softmax scores, v))"

text \<open>
  The whole call.  It returns the result or the exception, and the component as the call
  leaves it: the assignment to \<open>self.attn\<close> (line 159) comes before \<open>reshape\<close> and the
  output layer, so an exception raised by those two leaves the new \<open>attn\<close> behind.
  \<open>keep\<close> is the Bernoulli draw of the dropout.
\<close>

definition forward ::
  "MultiHeadAttention \<Rightarrow> fval tensor \<Rightarrow> fval tensor \<Rightarrow> fval tensor \<Rightarrow> real tensor option
     \<Rightarrow> (nat \<Rightarrow> bool) \<Rightarrow> (error + fval tensor) \<times> MultiHeadAttention" where
  "forward m query key val msk keep =
     (case shape query of
        [seq_len, batch_size, _] \<Rightarrow>
          (case forward_attn m query key val msk of
             Inl e \<Rightarrow> (Inl e, m)
           | Inr (a, v) \<Rightarrow>
               let a' = Dropout_forward (dropout m) keep a in
               (case einsum ''ijbh, jbhd->ibhd'' a' v of
                  Inl e \<Rightarrow> (Inl e, m)
                | Inr x \<Rightarrow>
                    let m' = m\<lparr>attn := Some a'\<rparr> in
                    (case reshape x [int seq_len, int batch_size, - 1] of
                       Inl e \<Rightarrow> (Inl e, m')
                     | Inr x' \<Rightarrow> (Linear_forward (output_layer m) x', m'))))
      | _ \<Rightarrow> (Inl ValueError, m))"

section \<open>Vocabulary of the proofs\<close>

text \<open>
  The unnormalized weight of a score relative to the row maximum \<open>m\<close>: the exponential
  of the difference, and 0 where the score is not finite or the difference overflows.
\<close>

definition fin_part :: "real \<Rightarrow> fval \<Rightarrow> real" where
  "fin_part m x =
     (case x of
        Fin r \<Rightarrow> if r - m \<le> - overflow_threshold then 0 else exp (r - m)
      | _ \<Rightarrow> 0)"

section \<open>Indexing\<close>

lemma length_indices: "length (indices sh) = numel sh"
  by (simp add: indices_def)

lemma ravel_less: "valid_index sh idx \<Longrightarrow> ravel sh idx < prod_list sh"
proof (induction sh idx rule: ravel.induct)
  case (1 n ns i "is")
  from 1(2) have i: "i < n" and v: "valid_index ns is" by (simp_all add: valid_index_def)
  have r: "ravel ns is < prod_list ns" using 1(1) v by simp
  have "i * prod_list ns + ravel ns is < i * prod_list ns + prod_list ns" using r by simp
  also have "\<dots> = (Suc i) * prod_list ns" by simp
  also have "\<dots> \<le> n * prod_list ns" using i by (simp add: Suc_leI mult_le_mono1 del: mult_Suc)
  finally show ?case by simp
qed (auto simp: valid_index_def)

lemma wf_tabulate: "wf_tensor (tabulate sh f)"
  by (simp add: wf_tensor_def tabulate_def length_indices)

lemma shape_tabulate: "shape (tabulate sh f) = sh"
  by (simp add: tabulate_def)

lemma nth_concat_uniform:
  "\<forall>xs \<in> set xss. length xs = n \<Longrightarrow> r < length xss \<Longrightarrow> j < n \<Longrightarrow> concat xss ! (r * n + j) = xss ! r ! j"
proof (induction xss arbitrary: r)
  case Nil then show ?case by simp
next
  case (Cons xs xss)
  show ?case
  proof (cases r)
    case 0 then show ?thesis using Cons.prems by (simp add: nth_append)
  next
    case (Suc r')
    have "concat (xs # xss) ! (r * n + j) = concat xss ! (r' * n + j)"
      using Cons.prems Suc by (simp add: nth_append)
    then show ?thesis using Cons.IH[of r'] Cons.prems Suc by simp
  qed
qed

section \<open>Softmax of one row\<close>

lemma overflow_threshold_gt: "2 ^ 63 < overflow_threshold"
  by (simp add: overflow_threshold_def)

lemma to_float_in_range:
  "- overflow_threshold < x \<Longrightarrow> x < overflow_threshold \<Longrightarrow> to_float x = Fin x"
  by (simp add: to_float_def)

lemma to_float_unit: "0 \<le> x \<Longrightarrow> x \<le> 1 \<Longrightarrow> to_float x = Fin x"
  using overflow_threshold_gt by (intro to_float_in_range) auto

text \<open>A sum of non-negative numbers that stays below the overflow threshold is exact.\<close>

lemma sum_elems_Fin:
  assumes "\<forall>r \<in> set rs. 0 \<le> r" and "sum_list rs < overflow_threshold"
  shows "sum_elems (map Fin rs) = Fin (sum_list rs)"
  using assms
proof (induction rs)
  case Nil
  then show ?case by (simp add: sum_elems_def zero_fval_def)
next
  case (Cons x xs)
  have x: "0 \<le> x" and xs: "\<forall>r \<in> set xs. 0 \<le> r" using Cons.prems(1) by simp_all
  have nn: "0 \<le> sum_list xs" using xs by (simp add: sum_list_nonneg)
  have lt: "sum_list xs < overflow_threshold" using Cons.prems(2) x by simp
  have ih: "sum_elems (map Fin xs) = Fin (sum_list xs)" using Cons.IH[OF xs lt] .
  have "sum_elems (map Fin (x # xs)) = fadd (Fin x) (sum_elems (map Fin xs))"
    by (simp add: sum_elems_def plus_fval_def)
  also have "\<dots> = to_float (x + sum_list xs)" by (simp add: ih)
  also have "\<dots> = Fin (x + sum_list xs)"
    using x nn Cons.prems(2) overflow_threshold_gt by (intro to_float_in_range) auto
  finally show ?case by simp
qed

lemma row_max:
  assumes "\<forall>x \<in> set xs. x = NInf \<or> (\<exists>r. x = Fin r)"
  shows "(foldr fmax xs NInf = NInf \<and> (\<forall>x \<in> set xs. x = NInf)) \<or>
         (\<exists>m. foldr fmax xs NInf = Fin m \<and> Fin m \<in> set xs \<and> (\<forall>r. Fin r \<in> set xs \<longrightarrow> r \<le> m))"
  using assms
proof (induction xs)
  case Nil then show ?case by simp
next
  case (Cons x xs)
  from Cons.prems have tl: "\<forall>x \<in> set xs. x = NInf \<or> (\<exists>r. x = Fin r)" by simp
  from Cons.prems have hd: "x = NInf \<or> (\<exists>r. x = Fin r)" by simp
  from Cons.IH[OF tl] show ?case
  proof
    assume a: "foldr fmax xs NInf = NInf \<and> (\<forall>x \<in> set xs. x = NInf)"
    from hd show ?thesis
    proof
      assume "x = NInf" then show ?thesis using a by simp
    next
      assume "\<exists>r. x = Fin r"
      then obtain r where r: "x = Fin r" ..
      have "foldr fmax (x # xs) NInf = Fin r" using a r by simp
      moreover have "\<forall>r'. Fin r' \<in> set (x # xs) \<longrightarrow> r' \<le> r" using a r by auto
      ultimately show ?thesis using r by auto
    qed
  next
    assume "\<exists>m. foldr fmax xs NInf = Fin m \<and> Fin m \<in> set xs \<and> (\<forall>r. Fin r \<in> set xs \<longrightarrow> r \<le> m)"
    then obtain m where m: "foldr fmax xs NInf = Fin m" "Fin m \<in> set xs" "\<forall>r. Fin r \<in> set xs \<longrightarrow> r \<le> m"
      by blast
    from hd show ?thesis
    proof
      assume "x = NInf" then show ?thesis using m by auto
    next
      assume "\<exists>r. x = Fin r"
      then obtain r where r: "x = Fin r" ..
      have f: "foldr fmax (x # xs) NInf = Fin (max r m)" using m r by simp
      have mem: "Fin (max r m) \<in> set (x # xs)" using m r by (cases "r \<le> m") (simp_all add: max_def)
      have ub: "\<forall>r'. Fin r' \<in> set (x # xs) \<longrightarrow> r' \<le> max r m" using m r by auto
      show ?thesis using f mem ub by blast
    qed
  qed
qed

lemma member_le_sum_map:
  fixes f :: "'a \<Rightarrow> real"
  assumes "\<And>y. 0 \<le> f y" and "x \<in> set xs"
  shows "f x \<le> sum_list (map f xs)"
  using assms(2)
proof (induction xs)
  case Nil then show ?case by simp
next
  case (Cons a xs)
  have s: "0 \<le> sum_list (map f xs)" by (rule sum_list_nonneg) (auto simp: assms(1))
  show ?case
  proof (cases "x = a")
    case True then show ?thesis using s by simp
  next
    case False
    then have "f x \<le> sum_list (map f xs)" using Cons by simp
    then show ?thesis using assms(1)[of a] by simp
  qed
qed

lemma sum_map_le_length:
  fixes f :: "'a \<Rightarrow> real"
  assumes "\<forall>x \<in> set xs. f x \<le> 1"
  shows "sum_list (map f xs) \<le> real (length xs)"
  using assms by (induction xs) auto

lemma fin_part_nonneg: "0 \<le> fin_part m x"
  by (auto simp: fin_part_def split: fval.splits)

lemma fin_part_le_one: "r \<le> m \<Longrightarrow> fin_part m (Fin r) \<le> 1"
  by (simp add: fin_part_def)

lemma fin_part_max: "fin_part m (Fin m) = 1"
  using overflow_threshold_gt by (simp add: fin_part_def)

text \<open>One entry of a row, shifted by the row maximum and exponentiated.\<close>

lemma shifted_exp:
  assumes "x = NInf \<or> (\<exists>r. x = Fin r \<and> r \<le> m)"
  shows "fexp (fsub x (Fin m)) = Fin (fin_part m x)"
  using assms
proof
  assume "x = NInf"
  then show ?thesis by (simp add: fsub_def fin_part_def)
next
  assume "\<exists>r. x = Fin r \<and> r \<le> m"
  then obtain r where r: "x = Fin r" "r \<le> m" by blast
  have up: "r - m < overflow_threshold" using r(2) overflow_threshold_gt by simp
  show ?thesis
  proof (cases "r - m \<le> - overflow_threshold")
    case True
    then have "to_float (r - m) = NInf" using up by (simp add: to_float_def)
    then show ?thesis using r True by (simp add: fsub_def fin_part_def)
  next
    case False
    then have "to_float (r - m) = Fin (r - m)" using up by (simp add: to_float_def)
    moreover have "to_float (exp (r - m)) = Fin (exp (r - m))"
      using r(2) by (intro to_float_unit) simp_all
    ultimately show ?thesis using r False by (simp add: fsub_def fin_part_def)
  qed
qed

lemma softmax_row_finite:
  assumes sc: "\<forall>x \<in> set xs. x = NInf \<or> (\<exists>r. x = Fin r)"
      and ne: "\<exists>x \<in> set xs. x \<noteq> NInf"
      and len: "length xs < 2 ^ 63"
  shows "\<exists>m S. 1 \<le> S \<and> S = sum_list (map (fin_part m) xs) \<and>
           (\<forall>x \<in> set xs. fin_part m x \<le> 1) \<and>
           softmax_row xs = map (\<lambda>x. Fin (fin_part m x / S)) xs"
proof -
  from row_max[OF sc] ne obtain m where
    m: "foldr fmax xs NInf = Fin m" "Fin m \<in> set xs" "\<forall>r. Fin r \<in> set xs \<longrightarrow> r \<le> m" by blast
  have sc': "\<forall>x \<in> set xs. x = NInf \<or> (\<exists>r. x = Fin r \<and> r \<le> m)" using sc m(3) by blast
  have es: "map (\<lambda>x. fexp (fsub x (Fin m))) xs = map Fin (map (fin_part m) xs)"
    using sc' by (simp add: shifted_exp)
  define S where "S = sum_list (map (fin_part m) xs)"
  have le1: "\<forall>x \<in> set xs. fin_part m x \<le> 1"
    using sc' fin_part_le_one by (auto simp: fin_part_def)
  have "S \<le> real (length xs)" unfolding S_def using sum_map_le_length[OF le1] .
  also have "\<dots> < 2 ^ 63" using len by (simp add: of_nat_less_iff[symmetric] del: of_nat_less_iff)
  finally have Slt: "S < overflow_threshold" using overflow_threshold_gt by simp
  have "fin_part m (Fin m) \<le> S"
    unfolding S_def using member_le_sum_map[of "fin_part m", OF fin_part_nonneg m(2)] .
  then have S1: "1 \<le> S" by (simp add: fin_part_max)
  have sum: "sum_elems (map Fin (map (fin_part m) xs)) = Fin S"
    unfolding S_def using Slt[unfolded S_def] by (intro sum_elems_Fin) (auto simp: fin_part_nonneg)
  have dv: "fdiv (Fin (fin_part m x)) (Fin S) = Fin (fin_part m x / S)" if "x \<in> set xs" for x
  proof -
    have a: "0 \<le> fin_part m x / S" using S1 fin_part_nonneg[of m x] by simp
    have "fin_part m x / S \<le> fin_part m x" using S1 fin_part_nonneg[of m x]
      by (simp add: divide_le_eq mult_le_cancel_left1)
    then have b: "fin_part m x / S \<le> 1" using le1 that by force
    show ?thesis using S1 to_float_unit[OF a b] by simp
  qed
  have "softmax_row xs = map (\<lambda>e. fdiv e (Fin S)) (map Fin (map (fin_part m) xs))"
    unfolding softmax_row_def Let_def m(1) es sum ..
  also have "\<dots> = map (\<lambda>x. Fin (fin_part m x / S)) xs"
    using dv by simp
  finally show ?thesis using S1 S_def le1 by blast
qed

lemma softmax_row_distribution:
  assumes sc: "\<forall>x \<in> set xs. x = NInf \<or> (\<exists>r. x = Fin r)"
      and ne: "\<exists>x \<in> set xs. x \<noteq> NInf"
      and len: "length xs < 2 ^ 63"
  shows "(\<forall>y \<in> set (softmax_row xs). \<exists>w. y = Fin w \<and> 0 \<le> w) \<and> sum_elems (softmax_row xs) = Fin 1"
proof -
  from softmax_row_finite[OF sc ne len] obtain m S where
    S: "1 \<le> S" "S = sum_list (map (fin_part m) xs)"
    and eq: "softmax_row xs = map (\<lambda>x. Fin (fin_part m x / S)) xs" by blast
  have 1: "\<forall>y \<in> set (softmax_row xs). \<exists>w. y = Fin w \<and> 0 \<le> w"
    unfolding eq using fin_part_nonneg S(1) by auto
  have tot: "sum_list (map (\<lambda>x. fin_part m x / S) xs) = 1"
  proof -
    have "sum_list (map (\<lambda>x. fin_part m x / S) xs) = sum_list (map (fin_part m) xs) / S"
      by (induction xs) (simp_all add: add_divide_distrib)
    then show ?thesis using S by simp
  qed
  have "softmax_row xs = map Fin (map (\<lambda>x. fin_part m x / S) xs)"
    unfolding eq by simp
  moreover have "sum_elems (map Fin (map (\<lambda>x. fin_part m x / S) xs))
      = Fin (sum_list (map (\<lambda>x. fin_part m x / S) xs))"
    using S(1) fin_part_nonneg overflow_threshold_gt
    by (intro sum_elems_Fin) (auto simp: tot)
  ultimately show ?thesis using 1 tot by simp
qed

lemma length_softmax_row: "length (softmax_row xs) = length xs"
  by (simp add: softmax_row_def Let_def)

section \<open>Softmax of a tensor\<close>

lemma ravel_snoc:
  "length r = length pre \<Longrightarrow> ravel (pre @ [n]) (r @ [j]) = ravel pre r * n + j"
proof (induction pre r rule: ravel.induct)
  case (1 m ms i "is")
  then show ?case by (simp add: algebra_simps)
qed simp_all

lemma valid_index_length: "valid_index sh idx \<Longrightarrow> length idx = length sh"
  by (simp add: valid_index_def list_all2_lengthD)

lemma numel_snoc: "numel (pre @ [n]) = numel pre * n"
  by (simp add: numel_def)

lemma rows_nth:
  assumes "wf_tensor T" "shape T = pre @ [n]" "R < numel pre" "j < n"
  shows "rows n T ! R ! j = elems T ! (R * n + j)" and "length (rows n T ! R) = n"
proof -
  have len: "length (elems T) = numel pre * n" using assms(1,2) by (simp add: wf_tensor_def numel_snoc)
  have "R * n + n \<le> numel pre * n"
  proof -
    have "Suc R \<le> numel pre" using assms(3) by simp
    then have "Suc R * n \<le> numel pre * n" by (rule mult_le_mono1)
    then show ?thesis by (simp add: algebra_simps)
  qed
  then have le: "R * n + n \<le> length (elems T)" using len by simp
  have row: "rows n T ! R = take n (drop (R * n) (elems T))"
    using assms(2,3) by (simp add: rows_def)
  show "length (rows n T ! R) = n" using row le by simp
  show "rows n T ! R ! j = elems T ! (R * n + j)" using row le assms(4) by simp
qed

lemma length_rows: "shape T = pre @ [n] \<Longrightarrow> length (rows n T) = numel pre"
  by (simp add: rows_def)

lemma softmax_elem:
  assumes wf: "wf_tensor T" and sh: "shape T = pre @ [n]" and v: "valid_index pre r" and j: "j < n"
  shows "elem_at (softmax T) (r @ [j]) = softmax_row (rows n T ! ravel pre r) ! j"
proof -
  let ?R = "ravel pre r"
  have R: "?R < numel pre" using ravel_less[OF v] by (simp add: numel_def)
  have lenr: "length r = length pre" using valid_index_length[OF v] .
  have uni: "\<forall>xs \<in> set (map softmax_row (rows n T)). length xs = n"
  proof
    fix xs assume "xs \<in> set (map softmax_row (rows n T))"
    then obtain k where k: "k < length (rows n T)" "xs = softmax_row (rows n T ! k)"
      by (auto simp: in_set_conv_nth)
    then have "k < numel pre" using length_rows[OF sh] by simp
    then have "length (rows n T ! k) = n" using rows_nth(2)[OF wf sh _ j] by simp
    then show "length xs = n" using k by (simp add: length_softmax_row)
  qed
  have ne: "shape T \<noteq> []" using sh by simp
  have "elem_at (softmax T) (r @ [j]) = concat (map softmax_row (rows n T)) ! (?R * n + j)"
    using sh ne lenr by (simp add: softmax_def elem_at_def ravel_snoc)
  also have "\<dots> = map softmax_row (rows n T) ! ?R ! j"
    using nth_concat_uniform[OF uni _ j, of ?R] R length_rows[OF sh] by simp
  also have "\<dots> = softmax_row (rows n T ! ?R) ! j"
    using R length_rows[OF sh] by simp
  finally show ?thesis .
qed

lemma elem_at_row:
  assumes wf: "wf_tensor T" and sh: "shape T = pre @ [n]" and v: "valid_index pre r" and j: "j < n"
  shows "elem_at T (r @ [j]) = rows n T ! ravel pre r ! j"
proof -
  have R: "ravel pre r < numel pre" using ravel_less[OF v] by (simp add: numel_def)
  have lenr: "length r = length pre" using valid_index_length[OF v] .
  show ?thesis using rows_nth(1)[OF wf sh R j] sh lenr by (simp add: elem_at_def ravel_snoc)
qed

text \<open>The softmax of a score row that holds a finite score.\<close>

lemma softmax_tensor_distribution:
  assumes wf: "wf_tensor T" and sh: "shape T = pre @ [n]" and v: "valid_index pre r"
      and sc: "\<forall>j < n. elem_at T (r @ [j]) = NInf \<or> (\<exists>y. elem_at T (r @ [j]) = Fin y)"
      and j0: "j0 < n" and fin: "elem_at T (r @ [j0]) \<noteq> NInf"
      and n: "n < 2 ^ 63"
  shows "(\<forall>j < n. \<exists>w. elem_at (softmax T) (r @ [j]) = Fin w \<and> 0 \<le> w) \<and>
         sum_elems (map (\<lambda>j. elem_at (softmax T) (r @ [j])) [0..<n]) = Fin 1"
proof -
  let ?row = "rows n T ! ravel pre r"
  have R: "ravel pre r < numel pre" using ravel_less[OF v] by (simp add: numel_def)
  have len: "length ?row = n" using rows_nth(2)[OF wf sh R j0] .
  have sc': "\<forall>x \<in> set ?row. x = NInf \<or> (\<exists>y. x = Fin y)"
  proof
    fix x assume "x \<in> set ?row"
    then obtain j where j: "j < n" "x = ?row ! j" using len by (auto simp: in_set_conv_nth)
    then show "x = NInf \<or> (\<exists>y. x = Fin y)"
      using sc[rule_format, OF j(1)] elem_at_row[OF wf sh v j(1)] by metis
  qed
  have "?row ! j0 \<noteq> NInf" using fin elem_at_row[OF wf sh v j0] by simp
  then have ne: "\<exists>x \<in> set ?row. x \<noteq> NInf" using len j0 by (metis nth_mem)
  have len63: "length ?row < 2 ^ 63" using len n by simp
  from softmax_row_distribution[OF sc' ne len63]
  have d1: "\<forall>y \<in> set (softmax_row ?row). \<exists>w. y = Fin w \<and> 0 \<le> w"
    and d2: "sum_elems (softmax_row ?row) = Fin 1" by blast+
  have lens: "length (softmax_row ?row) = n" using len by (simp add: length_softmax_row)
  have a: "\<forall>j < n. \<exists>w. elem_at (softmax T) (r @ [j]) = Fin w \<and> 0 \<le> w"
  proof (intro allI impI)
    fix j assume j: "j < n"
    have "softmax_row ?row ! j \<in> set (softmax_row ?row)" using lens j by simp
    then show "\<exists>w. elem_at (softmax T) (r @ [j]) = Fin w \<and> 0 \<le> w"
      using d1 softmax_elem[OF wf sh v j] by simp
  qed
  have "map (\<lambda>j. elem_at (softmax T) (r @ [j])) [0..<n] = map (\<lambda>j. softmax_row ?row ! j) [0..<n]"
    using softmax_elem[OF wf sh v] by simp
  also have "\<dots> = softmax_row ?row" using map_nth[of "softmax_row ?row"] lens by simp
  finally show ?thesis using a d2 by simp
qed

section \<open>Shapes of the two contractions\<close>

lemma parse_scores_eq: "parse_equation ''ibhd,jbhd->ibhj'' = (''ibhd'', ''jbhd'', ''ibhj'')"
  by (simp add: parse_equation_def)

lemma parse_aggregate_eq: "parse_equation ''ijbh, jbhd->ibhd'' = (''ijbh'', ''jbhd'', ''ibhd'')"
  by (simp add: parse_equation_def)

lemma label_size_pair:
  "label_size [a, b] = (if a = b \<or> b = 1 then Some a else if a = 1 then Some b else None)"
  by (auto simp: label_size_def)

lemma label_size_single: "label_size [a] = Some a"
  by (auto simp: label_size_def)

lemma einsum_sizes_scores:
  "einsum_sizes ''ibhd,jbhd->ibhj'' [i, b, h, d] [j, b, h, d] = Inr ([i, b, h, j], [d])"
  by (simp add: einsum_sizes_def parse_scores_eq label_sizes_def label_dims_def
      label_size_pair label_size_single)

lemma einsum_sizes_aggregate:
  "einsum_sizes ''ijbh, jbhd->ibhd'' [i, b, h, j] [j, b, h, d] =
     (case (label_size [b, j], label_size [h, b], label_size [j, h]) of
        (Some sj, Some sb, Some sh) \<Rightarrow> Inr ([i, sb, sh, d], [sj])
      | _ \<Rightarrow> Inl RuntimeError)"
  by (simp add: einsum_sizes_def parse_aggregate_eq label_sizes_def label_dims_def
      label_size_single split: option.splits)

section \<open>Linear layers and projections\<close>

lemma Linear_init_Inr:
  assumes "Linear_init inp out wb w b = Inr L"
  shows "0 \<le> inp" "0 \<le> out" "shape (weight L) = [nat out, nat inp]"
    "(bias L \<noteq> None) = wb" "in_features L = inp" "out_features L = out"
  using assms by (auto simp: Linear_init_def split: if_splits)

lemma Linear_init_ok:
  "0 \<le> inp \<Longrightarrow> 0 \<le> out \<Longrightarrow> \<exists>L. Linear_init inp out wb w b = Inr L"
  by (simp add: Linear_init_def)

lemma Linear_forward_eq:
  assumes "shape (weight L) = [out, inp]"
  shows "Linear_forward L x =
     (if shape x \<noteq> [] \<and> last (shape x) = inp
      then Inr \<lparr>shape = butlast (shape x) @ [out],
                elems = concat (map (\<lambda>r. map (affine L inp r) [0..<out]) (rows inp x))\<rparr>
      else Inl RuntimeError)"
  using assms by (simp add: Linear_forward_def)

lemma infer_size_nonneg:
  assumes "\<forall>d \<in> set dims. 0 \<le> d"
  shows "infer_size dims n =
     (if prod_list (map nat dims) = n then Inr (map nat dims) else Inl RuntimeError)"
proof -
  have 1: "\<not> list_ex (\<lambda>d. d < - 1) dims" using assms by (auto simp: list_ex_iff)
  have 2: "filter (\<lambda>d. d = - 1) dims = []" using assms by (auto simp: filter_empty_conv)
  have 3: "filter (\<lambda>d. d \<noteq> - 1) dims = dims" using assms by (auto simp: filter_id_conv)
  have 4: "\<not> list_ex (\<lambda>d. d = - 1) dims" using assms by (auto simp: list_ex_iff)
  show ?thesis unfolding infer_size_def by (simp only: 1 2 3 4 Let_def if_False) simp
qed

lemma prep_init_Inr:
  assumes "PrepareForMultiHeadAttention_init dm nh dh wb w b = Inr pr"
  shows "0 \<le> dm" "0 \<le> nh * dh" "shape (weight (linear pr)) = [nat (nh * dh), nat dm]"
    "(bias (linear pr) \<noteq> None) = wb" "n_heads pr = nh" "d_heads pr = dh"
  using assms Linear_init_Inr[of dm "nh * dh" wb w b]
  by (auto simp: PrepareForMultiHeadAttention_init_def and_then_def split: sum.splits)

lemma prep_init_ok:
  "0 \<le> dm \<Longrightarrow> 0 \<le> nh * dh \<Longrightarrow> \<exists>pr. PrepareForMultiHeadAttention_init dm nh dh wb w b = Inr pr"
  by (simp add: PrepareForMultiHeadAttention_init_def and_then_def Linear_init_def)

text \<open>A projection built by the constructor, applied to an input of trailing width \<open>d_model\<close>.\<close>

lemma prep_forward_ok:
  assumes init: "PrepareForMultiHeadAttention_init dm nh dh wb w b = Inr pr"
      and nh: "0 \<le> nh" and dh: "0 \<le> dh" and sh: "shape x = hs @ [nat dm]"
  shows "\<exists>lin. Linear_forward (linear pr) x = Inr lin \<and> shape lin = hs @ [nat (nh * dh)] \<and>
           PrepareForMultiHeadAttention_forward pr x = Inr (lin\<lparr>shape := hs @ [nat nh, nat dh]\<rparr>)"
proof -
  note f = prep_init_Inr[OF init]
  define lin where "lin = \<lparr>shape = hs @ [nat (nh * dh)],
      elems = concat (map (\<lambda>r. map (affine (linear pr) (nat dm) r) [0..<nat (nh * dh)]) (rows (nat dm) x))\<rparr>"
  have L: "Linear_forward (linear pr) x = Inr lin"
    using sh by (simp add: Linear_forward_eq[OF f(3)] lin_def)
  have nn: "\<forall>d \<in> set (map int hs @ [nh, dh]). 0 \<le> d" using nh dh by auto
  have prod: "prod_list (map nat (map int hs @ [nh, dh])) = numel (shape lin)"
    using nh dh by (simp add: lin_def numel_def nat_mult_distrib comp_def)
  have mp: "map nat (map int hs @ [nh, dh]) = hs @ [nat nh, nat dh]"
    by (simp add: comp_def)
  have V: "view lin (map int hs @ [n_heads pr, d_heads pr]) = Inr (lin\<lparr>shape := hs @ [nat nh, nat dh]\<rparr>)"
    unfolding view_def f(5,6) infer_size_nonneg[OF nn] using prod mp by simp
  have "PrepareForMultiHeadAttention_forward pr x = Inr (lin\<lparr>shape := hs @ [nat nh, nat dh]\<rparr>)"
    using L V sh by (simp add: PrepareForMultiHeadAttention_forward_def and_then_def)
  then show ?thesis using L by (auto simp: lin_def)
qed

lemma prep_forward_fail:
  assumes init: "PrepareForMultiHeadAttention_init dm nh dh wb w b = Inr pr"
      and sh: "shape x = [] \<or> last (shape x) \<noteq> nat dm"
  shows "PrepareForMultiHeadAttention_forward pr x = Inl RuntimeError"
  using sh Linear_forward_eq[OF prep_init_Inr(3)[OF init], of x]
  by (auto simp: PrepareForMultiHeadAttention_forward_def and_then_def)

section \<open>The constructor\<close>

lemma einsum_Inr:
  assumes "einsum eq A B = Inr T"
  shows "\<exists>so ss. einsum_sizes eq (shape A) (shape B) = Inr (so, ss) \<and> shape T = so \<and> wf_tensor T"
  using assms
  by (auto simp: einsum_def Let_def shape_tabulate wf_tabulate split: sum.splits prod.splits)

lemma einsum_Inl:
  "einsum_sizes eq (shape A) (shape B) = Inl e \<Longrightarrow> einsum eq A B = Inl e"
  by (simp add: einsum_def)

lemma einsum_ok:
  "einsum_sizes eq (shape A) (shape B) = Inr (so, ss) \<Longrightarrow> \<exists>T. einsum eq A B = Inr T \<and> shape T = so"
  by (auto simp: einsum_def Let_def shape_tabulate split: prod.splits)

lemma mha_init_Inr:
  assumes "MultiHeadAttention_init nh dm pr wb rnd = Inr m"
  shows "0 < nh" "nh \<le> dm" "0 \<le> pr" "pr \<le> 1"
    "PrepareForMultiHeadAttention_init dm nh (dm div nh) wb (rnd 0) (rnd 1) = Inr (query_prep m)"
    "PrepareForMultiHeadAttention_init dm nh (dm div nh) wb (rnd 2) (rnd 3) = Inr (key_prep m)"
    "PrepareForMultiHeadAttention_init dm nh (dm div nh) True (rnd 4) (rnd 5) = Inr (value_prep m)"
    "Linear_init dm dm True (rnd 6) (rnd 7) = Inr (output_layer m)"
    "dropout m = \<lparr>p = pr, training = True\<rparr>"
    "n_features m = dm div nh" "mha_n_heads m = nh" "attn m = None"
    "scale m = 1 / sqrt (real_of_int (dm div nh))"
proof -
  from assms have nz: "nh \<noteq> 0" by (auto simp: MultiHeadAttention_init_def split: if_splits)
  from assms nz obtain q k v out dr where
    q: "PrepareForMultiHeadAttention_init dm nh (dm div nh) wb (rnd 0) (rnd 1) = Inr q" and
    k: "PrepareForMultiHeadAttention_init dm nh (dm div nh) wb (rnd 2) (rnd 3) = Inr k" and
    v: "PrepareForMultiHeadAttention_init dm nh (dm div nh) True (rnd 4) (rnd 5) = Inr v" and
    out: "Linear_init dm dm True (rnd 6) (rnd 7) = Inr out" and
    dr: "Dropout_init pr = Inr dr" and
    nf: "0 < dm div nh" and
    m: "m = \<lparr>n_features = dm div nh, mha_n_heads = nh, query_prep = q, key_prep = k,
              value_prep = v, output_layer = out, dropout = dr,
              scale = 1 / sqrt (real_of_int (dm div nh)), attn = None\<rparr>"
    by (auto simp: MultiHeadAttention_init_def and_then_def Let_def split: if_splits sum.splits)
  from prep_init_Inr(2)[OF q] nf have "0 \<le> nh" by (simp add: zero_le_mult_iff)
  with nz show nhpos: "0 < nh" by simp
  from nf nhpos show "nh \<le> dm" by (simp add: pos_imp_zdiv_pos_iff)
  from dr show "0 \<le> pr" "pr \<le> 1" "dropout m = \<lparr>p = pr, training = True\<rparr>"
    by (auto simp: Dropout_init_def m split: if_splits)
  show "PrepareForMultiHeadAttention_init dm nh (dm div nh) wb (rnd 0) (rnd 1) = Inr (query_prep m)"
    "PrepareForMultiHeadAttention_init dm nh (dm div nh) wb (rnd 2) (rnd 3) = Inr (key_prep m)"
    "PrepareForMultiHeadAttention_init dm nh (dm div nh) True (rnd 4) (rnd 5) = Inr (value_prep m)"
    "Linear_init dm dm True (rnd 6) (rnd 7) = Inr (output_layer m)"
    "n_features m = dm div nh" "mha_n_heads m = nh" "attn m = None"
    "scale m = 1 / sqrt (real_of_int (dm div nh))"
    using q k v out by (simp_all add: m)
qed

lemma mha_init_ok:
  assumes "0 < nh" "nh \<le> dm" "0 \<le> pr" "pr \<le> 1"
  shows "\<exists>m. MultiHeadAttention_init nh dm pr wb rnd = Inr m"
proof -
  have nf: "0 < dm div nh" using assms by (simp add: pos_imp_zdiv_pos_iff)
  then have a: "0 \<le> dm" "0 \<le> nh * (dm div nh)" using assms by auto
  from prep_init_ok[OF a] obtain q where
    q: "PrepareForMultiHeadAttention_init dm nh (dm div nh) wb (rnd 0) (rnd 1) = Inr q" by blast
  from prep_init_ok[OF a] obtain k where
    k: "PrepareForMultiHeadAttention_init dm nh (dm div nh) wb (rnd 2) (rnd 3) = Inr k" by blast
  from prep_init_ok[OF a] obtain v where
    v: "PrepareForMultiHeadAttention_init dm nh (dm div nh) True (rnd 4) (rnd 5) = Inr v" by blast
  from Linear_init_ok[OF a(1) a(1)] obtain out where
    out: "Linear_init dm dm True (rnd 6) (rnd 7) = Inr out" by blast
  show ?thesis using assms nf q k v out
    by (simp add: MultiHeadAttention_init_def and_then_def Let_def Dropout_init_def)
qed

lemma mha_init_fail:
  assumes "\<not> (0 < nh \<and> nh \<le> dm \<and> 0 \<le> pr \<and> pr \<le> 1)"
  shows "\<exists>e. MultiHeadAttention_init nh dm pr wb rnd = Inl e"
proof (cases "MultiHeadAttention_init nh dm pr wb rnd")
  case (Inl e) then show ?thesis by blast
next
  case (Inr m)
  from mha_init_Inr(1-4)[OF Inr] assms show ?thesis by simp
qed

section \<open>Evaluation on concrete tensors\<close>

lemma upt_0_numeral: "[0..<numeral n] = 0 # [1..<numeral n]"
  by (simp add: upt_rec[of 0])

lemma upt_Suc0_numeral:
  "[Suc 0..<numeral n] = (if (1::nat) < numeral n then 1 # [2..<numeral n] else [])"
  by (simp add: upt_rec[of "Suc 0"] numeral_2_eq_2)

lemma replicate_numeral: "replicate (numeral k) x = x # replicate (pred_numeral k) x"
  by (simp add: numeral_eq_Suc)

lemma overflow_threshold_numeral:
  "overflow_threshold = 340282356779733661637539395458142568448"
  by (simp add: overflow_threshold_def)

lemma to_float_fin:
  "- 340282356779733661637539395458142568448 < x \<Longrightarrow> x < 340282356779733661637539395458142568448
     \<Longrightarrow> to_float x = Fin x"
  by (simp add: to_float_def overflow_threshold_numeral)

lemma to_float_pinf:
  "340282356779733661637539395458142568448 \<le> x \<Longrightarrow> to_float x = PInf"
  by (simp add: to_float_def overflow_threshold_numeral)

lemma to_float_ninf:
  "x \<le> - 340282356779733661637539395458142568448 \<Longrightarrow> to_float x = NInf"
  by (simp add: to_float_def overflow_threshold_numeral)

lemmas evals = Let_def upt_0_numeral upt_Suc0_numeral replicate_numeral indices_def numel_def MultiHeadAttention_init_def
  PrepareForMultiHeadAttention_init_def
  Linear_init_def Dropout_init_def and_then_def forward_def forward_attn_def forward_scores_def
  prepare_mask_def shape_get_def unsqueeze_last_def PrepareForMultiHeadAttention_forward_def
  Linear_forward_def rows_def affine_def sum_elems_def view_def infer_size_def get_scores_def
  einsum_def einsum_sizes_def parse_equation_def label_sizes_def label_size_def label_dims_def
  tabulate_def operand_index_def lookup_label_def elem_at_def scale_by_def masked_fill_def
  eq_scalar_def broadcast_shapes_def elem_at_bc_def bc_index_def softmax_def softmax_row_def
  fsub_def zero_fval_def plus_fval_def times_fval_def Dropout_forward_def noise_def reshape_def
  zeros_def inf_times_def to_float_fin to_float_pinf to_float_ninf

section \<open>The constructor's checks\<close>

text \<open>
  C3, as stated, fails: constructing with \<open>n_heads = 2\<close> and \<open>d_model = 3\<close> (not
  divisible) succeeds, with \<open>n_features = 1\<close>, and the mismatch surfaces later, inside
  \<open>forward\<close>, as a RuntimeError on a query, key and value of shape \<open>(1, 1, 3)\<close>.
\<close>

theorem init_accepts_indivisible_width:
  "case MultiHeadAttention_init 2 3 (1 / 10) True (\<lambda>_ _. 0) of
     Inl e \<Rightarrow> False
   | Inr m \<Rightarrow> n_features m = 1 \<and>
       fst (forward m (zeros [1, 1, 3]) (zeros [1, 1, 3]) (zeros [1, 1, 3]) None (\<lambda>_. True))
         = Inl RuntimeError"
  by (simp add: evals)

text \<open>
  C3, amended: the constructor succeeds exactly when \<open>0 < n_heads \<le> d_model\<close> and
  \<open>0 \<le> dropout_prob \<le> 1\<close>; with such sizes, a dropout probability below 0 or above 1
  fails at construction with a ValueError.  Divisibility of \<open>d_model\<close> by \<open>n_heads\<close> is
  not checked, and a dropout probability of exactly 1 is accepted.
\<close>

theorem init_accepts_iff:
  "(case MultiHeadAttention_init nh dm pr wb rnd of Inl e \<Rightarrow> False | Inr m \<Rightarrow> True)
     = (0 < nh \<and> nh \<le> dm \<and> 0 \<le> pr \<and> pr \<le> 1)
   \<and> (0 < nh \<and> nh \<le> dm \<and> (pr < 0 \<or> 1 < pr)
        \<longrightarrow> MultiHeadAttention_init nh dm pr wb rnd = Inl ValueError)"
proof (intro conjI impI)
  show "(case MultiHeadAttention_init nh dm pr wb rnd of Inl e \<Rightarrow> False | Inr m \<Rightarrow> True)
     = (0 < nh \<and> nh \<le> dm \<and> 0 \<le> pr \<and> pr \<le> 1)"
  proof (cases "0 < nh \<and> nh \<le> dm \<and> 0 \<le> pr \<and> pr \<le> 1")
    case True
    then obtain m where "MultiHeadAttention_init nh dm pr wb rnd = Inr m"
      using mha_init_ok[of nh dm pr wb rnd] by blast
    then show ?thesis using True by simp
  next
    case False
    then obtain e where "MultiHeadAttention_init nh dm pr wb rnd = Inl e"
      using mha_init_fail[of nh dm pr wb rnd] by blast
    then show ?thesis using False by simp
  qed
next
  assume a: "0 < nh \<and> nh \<le> dm \<and> (pr < 0 \<or> 1 < pr)"
  then have nf: "0 < dm div nh" by (simp add: pos_imp_zdiv_pos_iff)
  then have b: "0 \<le> dm" "0 \<le> nh * (dm div nh)" using a by auto
  from prep_init_ok[OF b] obtain q where
    q: "PrepareForMultiHeadAttention_init dm nh (dm div nh) wb (rnd 0) (rnd 1) = Inr q" by blast
  from prep_init_ok[OF b] obtain k where
    k: "PrepareForMultiHeadAttention_init dm nh (dm div nh) wb (rnd 2) (rnd 3) = Inr k" by blast
  from prep_init_ok[OF b] obtain v where
    v: "PrepareForMultiHeadAttention_init dm nh (dm div nh) True (rnd 4) (rnd 5) = Inr v" by blast
  from Linear_init_ok[OF b(1) b(1)] obtain out where
    out: "Linear_init dm dm True (rnd 6) (rnd 7) = Inr out" by blast
  show "MultiHeadAttention_init nh dm pr wb rnd = Inl ValueError"
    using a q k v out by (auto simp: MultiHeadAttention_init_def and_then_def Let_def Dropout_init_def)
qed

text \<open>C3, amended, at \<open>n_heads = 8\<close>, \<open>d_model = 512\<close>, \<open>dropout_prob = 1.5\<close>.\<close>

theorem init_accepts_iff_witness:
  "(case MultiHeadAttention_init 8 512 (3 / 2) True (\<lambda>_ _. 0) of Inl e \<Rightarrow> False | Inr m \<Rightarrow> True)
     = ((0::int) < 8 \<and> (8::int) \<le> 512 \<and> (0::real) \<le> 3 / 2 \<and> (3 / 2 :: real) \<le> 1)
   \<and> (0::int) < 8 \<and> (8::int) \<le> 512 \<and> ((3 / 2 :: real) < 0 \<or> (1::real) < 3 / 2)
   \<and> MultiHeadAttention_init 8 512 (3 / 2) True (\<lambda>_ _. 0) = Inl ValueError"
  using init_accepts_iff[where nh = 8 and dm = 512 and pr = "3 / 2" and wb = True and rnd = "\<lambda>_ _. 0"]
  by simp

text \<open>
  C6: in every constructed MultiHeadAttention the value projection has a bias, whatever
  the caller's \<open>bias\<close> flag; the query and key projections have one exactly when the flag
  is set.
\<close>

theorem value_bias_always_enabled:
  "case MultiHeadAttention_init nh dm pr wb rnd of
     Inl e \<Rightarrow> True
   | Inr m \<Rightarrow> bias (linear (value_prep m)) \<noteq> None
       \<and> (bias (linear (query_prep m)) \<noteq> None) = wb
       \<and> (bias (linear (key_prep m)) \<noteq> None) = wb"
proof (cases "MultiHeadAttention_init nh dm pr wb rnd")
  case (Inl e) then show ?thesis by simp
next
  case (Inr m)
  note f = mha_init_Inr[OF Inr]
  show ?thesis
    using prep_init_Inr(4)[OF f(5)] prep_init_Inr(4)[OF f(6)] prep_init_Inr(4)[OF f(7)] Inr
    by simp
qed

text \<open>C6 at \<open>n_heads = 8\<close>, \<open>d_model = 512\<close> with \<open>bias = False\<close>.\<close>

theorem value_bias_always_enabled_witness:
  "case MultiHeadAttention_init 8 512 (1 / 10) False (\<lambda>_ _. 0) of
     Inl e \<Rightarrow> False
   | Inr m \<Rightarrow> bias (linear (value_prep m)) \<noteq> None
       \<and> bias (linear (query_prep m)) = None
       \<and> bias (linear (key_prep m)) = None"
proof -
  obtain m where m: "MultiHeadAttention_init 8 512 (1 / 10) False (\<lambda>_ _. 0) = Inr m"
    using mha_init_ok[of 8 512 "1 / 10" False "\<lambda>_ _. 0"] by auto
  show ?thesis
    using value_bias_always_enabled[where nh = 8 and dm = 512 and pr = "1 / 10" and wb = False
        and rnd = "\<lambda>_ _. 0"] m by simp
qed

section \<open>The projection head\<close>

lemma ravel_snoc2:
  assumes "length r = length pre"
  shows "ravel (pre @ [a, b]) (r @ [i, j]) = ravel (pre @ [a * b]) (r @ [i * b + j])"
proof -
  have "ravel ((pre @ [a]) @ [b]) ((r @ [i]) @ [j]) = ravel (pre @ [a]) (r @ [i]) * b + j"
    using assms by (intro ravel_snoc) simp
  then show ?thesis using assms by (simp add: ravel_snoc algebra_simps)
qed

text \<open>
  C7: the projection head is the linear layer followed by a reinterpretation of the
  trailing axis of size \<open>H * D\<close> as \<open>(H, D)\<close>: the result has the linear layer's elements
  in the same order, element \<open>(\<dots>, h, d)\<close> is element \<open>(\<dots>, h * D + d)\<close> of the linear
  layer's output, and reshaping the result to a single trailing axis gives the linear
  layer's output back.
\<close>

theorem prepare_is_linear_then_view:
  assumes "PrepareForMultiHeadAttention_init dm nh dh wb w b = Inr pr"
      and "0 \<le> nh" and "0 \<le> dh" and "shape x = hs @ [nat dm]"
  shows "\<exists>lin y. Linear_forward (linear pr) x = Inr lin
           \<and> PrepareForMultiHeadAttention_forward pr x = Inr y
           \<and> shape y = hs @ [nat nh, nat dh]
           \<and> elems y = elems lin
           \<and> (\<forall>r h d. length r = length hs \<longrightarrow>
                 elem_at y (r @ [h, d]) = elem_at lin (r @ [h * nat dh + d]))
           \<and> reshape y (map int hs @ [nh * dh]) = Inr lin"
proof -
  from prep_forward_ok[OF assms] obtain lin where
    L: "Linear_forward (linear pr) x = Inr lin" and
    sl: "shape lin = hs @ [nat (nh * dh)]" and
    F: "PrepareForMultiHeadAttention_forward pr x = Inr (lin\<lparr>shape := hs @ [nat nh, nat dh]\<rparr>)"
    by blast
  let ?y = "lin\<lparr>shape := hs @ [nat nh, nat dh]\<rparr>"
  have nm: "nat (nh * dh) = nat nh * nat dh" using assms(2) by (simp add: nat_mult_distrib)
  have nn: "\<forall>d \<in> set (map int hs @ [nh * dh]). 0 \<le> d" using assms(2,3) by auto
  have mp: "map nat (map int hs @ [nh * dh]) = hs @ [nat (nh * dh)]" by (simp add: comp_def)
  have R: "reshape ?y (map int hs @ [nh * dh]) = Inr lin"
    unfolding reshape_def view_def infer_size_nonneg[OF nn] mp
    using sl nm by (simp add: numel_def)
  have E: "\<forall>r h d. length r = length hs \<longrightarrow>
             elem_at ?y (r @ [h, d]) = elem_at lin (r @ [h * nat dh + d])"
    using sl nm by (simp add: elem_at_def ravel_snoc2)
  show ?thesis using L F R E by auto
qed

text \<open>
  C7 in the scenario \<open>d_model = 512\<close>, \<open>heads = 8\<close>, \<open>d_head = 64\<close>: an input of shape
  \<open>(10, 20, 512)\<close> gives an output of shape \<open>(10, 20, 8, 64)\<close>.
\<close>

theorem prepare_is_linear_then_view_witness:
  "case PrepareForMultiHeadAttention_init 512 8 64 True (\<lambda>_. 0) (\<lambda>_. 0) of
     Inl e \<Rightarrow> False
   | Inr pr \<Rightarrow>
       (case PrepareForMultiHeadAttention_forward pr (zeros [10, 20, 512]) of
          Inl e \<Rightarrow> False
        | Inr y \<Rightarrow> shape y = [10, 20, 8, 64]
            \<and> (case Linear_forward (linear pr) (zeros [10, 20, 512]) of
                  Inl e \<Rightarrow> False
                | Inr lin \<Rightarrow> elems y = elems lin \<and> reshape y [10, 20, 512] = Inr lin))"
proof -
  obtain pr where pr: "PrepareForMultiHeadAttention_init 512 8 64 True (\<lambda>_. 0) (\<lambda>_. 0) = Inr pr"
    using prep_init_ok[of 512 8 64 True "\<lambda>_. 0" "\<lambda>_. 0"] by auto
  have sh: "shape (zeros [10, 20, 512]) = [10, 20] @ [nat 512]" by (simp add: zeros_def)
  from prepare_is_linear_then_view[OF pr _ _ sh] obtain lin y where
    "Linear_forward (linear pr) (zeros [10, 20, 512]) = Inr lin"
    "PrepareForMultiHeadAttention_forward pr (zeros [10, 20, 512]) = Inr y"
    "shape y = [10, 20] @ [nat 8, nat 64]" "elems y = elems lin"
    "reshape y (map int [10, 20] @ [8 * 64]) = Inr lin"
    by auto
  then show ?thesis using pr by simp
qed

section \<open>Dropout and the component's state\<close>

lemma forward_attn_dropout_irrelevant:
  "forward_attn (m\<lparr>dropout := d\<rparr>) query key val msk = forward_attn m query key val msk"
  by (simp add: forward_attn_def forward_scores_def)

lemma Dropout_forward_eval: "\<not> training d \<Longrightarrow> Dropout_forward d keep x = x"
  by (simp add: Dropout_forward_def)

text \<open>
  C8: in evaluation mode the dropout probability has no effect on the call: with the
  same parameters and inputs, \<open>forward\<close> returns the same result (and records the same
  weights) for any two probabilities, in particular 0.3 and 0.
\<close>

theorem dropout_is_noop_in_eval_mode:
  assumes "\<not> training (dropout m)"
  shows "fst (forward (m\<lparr>dropout := (dropout m)\<lparr>p := pa\<rparr>\<rparr>) query key val msk keep_a)
           = fst (forward (m\<lparr>dropout := (dropout m)\<lparr>p := pb\<rparr>\<rparr>) query key val msk keep_b)
       \<and> attn (snd (forward (m\<lparr>dropout := (dropout m)\<lparr>p := pa\<rparr>\<rparr>) query key val msk keep_a))
           = attn (snd (forward (m\<lparr>dropout := (dropout m)\<lparr>p := pb\<rparr>\<rparr>) query key val msk keep_b))"
  using assms
  by (auto simp: forward_def forward_attn_dropout_irrelevant Dropout_forward_eval Let_def
      split: list.splits sum.splits prod.splits)

text \<open>C8 on a component with two heads of width 1 in evaluation mode, probabilities 0.3 and 0.\<close>

theorem dropout_is_noop_in_eval_mode_witness:
  "case MultiHeadAttention_init 2 2 (3 / 10) True (\<lambda>_ _. 0) of
     Inl e \<Rightarrow> False
   | Inr m0 \<Rightarrow>
       (let m = set_training False m0 in
        \<not> training (dropout m)
        \<and> fst (forward (m\<lparr>dropout := (dropout m)\<lparr>p := 3 / 10\<rparr>\<rparr>)
                 (zeros [1, 2, 2]) (zeros [2, 2, 2]) (zeros [2, 2, 2]) None (\<lambda>_. False))
            = fst (forward (m\<lparr>dropout := (dropout m)\<lparr>p := 0\<rparr>\<rparr>)
                 (zeros [1, 2, 2]) (zeros [2, 2, 2]) (zeros [2, 2, 2]) None (\<lambda>_. True)))"
proof -
  obtain m0 where m0: "MultiHeadAttention_init 2 2 (3 / 10) True (\<lambda>_ _. 0) = Inr m0"
    using mha_init_ok[of 2 2 "3 / 10" True "\<lambda>_ _. 0"] by auto
  have ev: "\<not> training (dropout (set_training False m0))" by (simp add: set_training_def)
  show ?thesis
    using dropout_is_noop_in_eval_mode[OF ev, where pa = "3 / 10" and pb = 0
        and query = "zeros [1, 2, 2]" and key = "zeros [2, 2, 2]" and val = "zeros [2, 2, 2]"
        and msk = None and keep_a = "\<lambda>_. False" and keep_b = "\<lambda>_. True"] m0 ev
    by (simp add: Let_def)
qed

text \<open>
  C9: a call changes no field of the component other than \<open>attn\<close>; \<open>attn\<close> keeps its old
  value or holds the dropout-applied attention weights of this call, and it holds them
  whenever the call returns a tensor.  The inputs are values of the model, and every
  tensor operation of \<open>forward\<close> is out of place.
\<close>

theorem forward_changes_only_attn:
  "snd (forward m query key val msk keep)
     = m\<lparr>attn := attn (snd (forward m query key val msk keep))\<rparr>
   \<and> (attn (snd (forward m query key val msk keep)) = attn m
      \<or> (case forward_attn m query key val msk of
            Inl e \<Rightarrow> False
          | Inr (a, v) \<Rightarrow> attn (snd (forward m query key val msk keep))
                           = Some (Dropout_forward (dropout m) keep a)))
   \<and> (case fst (forward m query key val msk keep) of
         Inl e \<Rightarrow> True
       | Inr y \<Rightarrow>
           (case forward_attn m query key val msk of
              Inl e \<Rightarrow> False
            | Inr (a, v) \<Rightarrow> attn (snd (forward m query key val msk keep))
                             = Some (Dropout_forward (dropout m) keep a)))"
  by (auto simp: forward_def Let_def split: list.splits sum.splits prod.splits)

text \<open>C9 on a call that returns a tensor: two heads of width 1, batch 2, two key positions.\<close>

theorem forward_changes_only_attn_witness:
  "case MultiHeadAttention_init 2 2 (1 / 10) True (\<lambda>_ _. 0) of
     Inl e \<Rightarrow> False
   | Inr m \<Rightarrow>
       (case fst (forward m (zeros [1, 2, 2]) (zeros [2, 2, 2]) (zeros [2, 2, 2]) None (\<lambda>_. True)) of
          Inl e \<Rightarrow> False
        | Inr y \<Rightarrow> shape y = [1, 2, 2])
       \<and> snd (forward m (zeros [1, 2, 2]) (zeros [2, 2, 2]) (zeros [2, 2, 2]) None (\<lambda>_. True))
           = m\<lparr>attn := attn (snd (forward m (zeros [1, 2, 2]) (zeros [2, 2, 2]) (zeros [2, 2, 2])
                                    None (\<lambda>_. True)))\<rparr>
       \<and> attn (snd (forward m (zeros [1, 2, 2]) (zeros [2, 2, 2]) (zeros [2, 2, 2]) None (\<lambda>_. True)))
           \<noteq> None"
proof -
  obtain m where m: "MultiHeadAttention_init 2 2 (1 / 10) True (\<lambda>_ _. 0) = Inr m"
    using mha_init_ok[of 2 2 "1 / 10" True "\<lambda>_ _. 0"] by auto
  let ?r = "forward m (zeros [1, 2, 2]) (zeros [2, 2, 2]) (zeros [2, 2, 2]) None (\<lambda>_. True)"
  have "case MultiHeadAttention_init 2 2 (1 / 10) True (\<lambda>_ _. 0) of
          Inl e \<Rightarrow> False
        | Inr m \<Rightarrow>
            (case fst (forward m (zeros [1, 2, 2]) (zeros [2, 2, 2]) (zeros [2, 2, 2]) None (\<lambda>_. True)) of
               Inl e \<Rightarrow> False
             | Inr y \<Rightarrow> shape y = [1, 2, 2])"
    by (simp add: evals)
  then have ok: "case fst ?r of Inl e \<Rightarrow> False | Inr y \<Rightarrow> shape y = [1, 2, 2]"
    using m by simp
  note fr = forward_changes_only_attn[where m = m and query = "zeros [1, 2, 2]"
      and key = "zeros [2, 2, 2]" and val = "zeros [2, 2, 2]" and msk = None and keep = "\<lambda>_. True"]
  from fr have frame: "snd ?r = m\<lparr>attn := attn (snd ?r)\<rparr>" by blast
  from fr ok have "attn (snd ?r) \<noteq> None"
    by (auto split: sum.splits prod.splits)
  then show ?thesis using m ok frame by simp
qed

section \<open>Shapes along \<open>forward\<close>\<close>

lemma shape_softmax: "shape (softmax T) = shape T"
  by (simp add: softmax_def)

lemma shape_Dropout_forward: "shape (Dropout_forward d keep x) = shape x"
  by (simp add: Dropout_forward_def)

lemma shape_scale_by: "shape (scale_by T c) = shape T"
  by (simp add: scale_by_def)

text \<open>Without a mask, on inputs of the documented shapes, the weights have shape
  \<open>(Sq, B, H, Sk)\<close> and the projected value has shape \<open>(Sk, B, H, D)\<close>.\<close>

lemma forward_attn_shapes:
  assumes init: "MultiHeadAttention_init nh dm pr wb rnd = Inr m"
      and q: "shape query = [sq, b, nat dm]"
      and k: "shape key = [sk, b, nat dm]"
      and v: "shape val = [sk, b, nat dm]"
  shows "\<exists>a v'. forward_attn m query key val None = Inr (a, v')
           \<and> shape a = [sq, b, nat nh, sk] \<and> shape v' = [sk, b, nat nh, nat (dm div nh)]"
proof -
  note f = mha_init_Inr[OF init]
  have nh: "0 \<le> nh" using f(1) by simp
  have nf: "0 \<le> dm div nh" using f(1,2) by (simp add: pos_imp_zdiv_nonneg_iff)
  have q': "shape query = [sq, b] @ [nat dm]" using q by simp
  have k': "shape key = [sk, b] @ [nat dm]" using k by simp
  have v': "shape val = [sk, b] @ [nat dm]" using v by simp
  from prep_forward_ok[OF f(5) nh nf q'] obtain ql where
    Q: "PrepareForMultiHeadAttention_forward (query_prep m) query
          = Inr (ql\<lparr>shape := [sq, b] @ [nat nh, nat (dm div nh)]\<rparr>)" by blast
  from prep_forward_ok[OF f(6) nh nf k'] obtain kl where
    K: "PrepareForMultiHeadAttention_forward (key_prep m) key
          = Inr (kl\<lparr>shape := [sk, b] @ [nat nh, nat (dm div nh)]\<rparr>)" by blast
  from prep_forward_ok[OF f(7) nh nf v'] obtain vl where
    V: "PrepareForMultiHeadAttention_forward (value_prep m) val
          = Inr (vl\<lparr>shape := [sk, b] @ [nat nh, nat (dm div nh)]\<rparr>)" by blast
  let ?q = "ql\<lparr>shape := [sq, b] @ [nat nh, nat (dm div nh)]\<rparr>"
  let ?k = "kl\<lparr>shape := [sk, b] @ [nat nh, nat (dm div nh)]\<rparr>"
  have "einsum_sizes ''ibhd,jbhd->ibhj'' (shape ?q) (shape ?k)
          = Inr ([sq, b, nat nh, sk], [nat (dm div nh)])"
    using einsum_sizes_scores[of sq b "nat nh" "nat (dm div nh)" sk] by simp
  from einsum_ok[OF this] obtain s where
    S: "get_scores ?q ?k = Inr s" "shape s = [sq, b, nat nh, sk]"
    by (auto simp: get_scores_def)
  show ?thesis
    using Q K V S q
    by (simp add: forward_attn_def forward_scores_def and_then_def Let_def
        shape_softmax shape_scale_by)
qed

text \<open>The aggregation reads the weights, laid out \<open>(Sq, B, H, Sk)\<close>, under the letters
  \<open>ijbh\<close>: it fails unless the batch size, the number of heads and the number of key
  positions agree pairwise up to broadcasting.\<close>

lemma forward_aggregate_fails:
  assumes init: "MultiHeadAttention_init nh dm pr wb rnd = Inr m"
      and q: "shape query = [sq, b, nat dm]"
      and k: "shape key = [sk, b, nat dm]"
      and v: "shape val = [sk, b, nat dm]"
      and bad: "label_size [b, sk] = None \<or> label_size [nat nh, b] = None
                  \<or> label_size [sk, nat nh] = None"
  shows "forward m query key val None keep = (Inl RuntimeError, m)"
proof -
  from forward_attn_shapes[OF init q k v] obtain a v' where
    A: "forward_attn m query key val None = Inr (a, v')"
       "shape a = [sq, b, nat nh, sk]" "shape v' = [sk, b, nat nh, nat (dm div nh)]"
    by blast
  let ?a = "Dropout_forward (dropout m) keep a"
  have "einsum_sizes ''ijbh, jbhd->ibhd'' (shape ?a) (shape v') = Inl RuntimeError"
    using bad A(2,3)
    by (auto simp: shape_Dropout_forward einsum_sizes_aggregate split: option.splits)
  from einsum_Inl[OF this] show ?thesis
    using A(1) q by (simp add: forward_def Let_def)
qed

section \<open>The documented scenario\<close>

text \<open>
  C1 (the code falls short of it): in the scenario of the specification, a query of
  shape \<open>(5, 2, 512)\<close>, a key and a value of shape \<open>(7, 2, 512)\<close>, eight heads and no
  mask, the call returns no tensor.  The aggregation raises a RuntimeError, and the
  component is left as it was.
\<close>

theorem forward_fails_in_documented_scenario:
  "case MultiHeadAttention_init 8 512 (1 / 10) True (\<lambda>_ _. 0) of
     Inl e \<Rightarrow> False
   | Inr m \<Rightarrow>
       forward m (zeros [5, 2, 512]) (zeros [7, 2, 512]) (zeros [7, 2, 512]) None (\<lambda>_. True)
         = (Inl RuntimeError, m)"
proof -
  obtain m where m: "MultiHeadAttention_init 8 512 (1 / 10) True (\<lambda>_ _. 0) = Inr m"
    using mha_init_ok[of 8 512 "1 / 10" True "\<lambda>_ _. 0"] by auto
  have "forward m (zeros [5, 2, 512]) (zeros [7, 2, 512]) (zeros [7, 2, 512]) None (\<lambda>_. True)
          = (Inl RuntimeError, m)"
    by (rule forward_aggregate_fails[OF m, where sq = 5 and b = 2 and sk = 7])
       (simp_all add: zeros_def label_size_pair)
  then show ?thesis using m by simp
qed

section \<open>Shape mismatches\<close>

text \<open>
  C2, as stated, fails: a key with one position and a value with two (two heads of width
  1, batch 2) are accepted, and the call returns a tensor of shape \<open>(1, 2, 2)\<close>.
\<close>

theorem forward_accepts_length_mismatch:
  "case MultiHeadAttention_init 2 2 (1 / 10) True (\<lambda>_ _. 0) of
     Inl e \<Rightarrow> False
   | Inr m \<Rightarrow>
       (case fst (forward m (zeros [1, 2, 2]) (zeros [1, 2, 2]) (zeros [2, 2, 2]) None (\<lambda>_. True)) of
          Inl e \<Rightarrow> False
        | Inr y \<Rightarrow> shape y = [1, 2, 2])"
  by (simp add: evals)

lemma prepare_forward_error:
  "PrepareForMultiHeadAttention_forward pr x = Inl e \<Longrightarrow> e = RuntimeError"
  by (auto simp: PrepareForMultiHeadAttention_forward_def and_then_def Linear_forward_def
      view_def infer_size_def Let_def split: sum.splits list.splits if_splits)

text \<open>When a projection fails, the call fails: with the error of the mask check if that
  has failed first, with the projection's RuntimeError otherwise.\<close>

lemma forward_scores_projection_fails:
  assumes "length (shape query) = 3"
      and "PrepareForMultiHeadAttention_forward (query_prep m) query = Inl e1
         \<or> PrepareForMultiHeadAttention_forward (key_prep m) key = Inl e2
         \<or> PrepareForMultiHeadAttention_forward (value_prep m) val = Inl e3"
  shows "\<exists>e. forward_scores m query key val msk = Inl e
           \<and> (e = RuntimeError
              \<or> (case msk of
                    None \<Rightarrow> False
                  | Some mk \<Rightarrow> prepare_mask mk (shape query) (shape key) = Inl e))"
proof (cases "case msk of None \<Rightarrow> Inr None
                | Some mk \<Rightarrow> and_then (prepare_mask mk (shape query) (shape key))
                              (\<lambda>mk'. Inr (Some mk'))")
  case (Inl e)
  then have "forward_scores m query key val msk = Inl e"
    using assms(1) by (simp add: forward_scores_def and_then_def)
  moreover have "case msk of None \<Rightarrow> False
                 | Some mk \<Rightarrow> prepare_mask mk (shape query) (shape key) = Inl e"
    using Inl by (auto simp: and_then_def split: option.splits sum.splits)
  ultimately show ?thesis by blast
next
  case (Inr msk')
  have "forward_scores m query key val msk = Inl RuntimeError"
    using assms Inr
      prepare_forward_error[of "query_prep m" query]
      prepare_forward_error[of "key_prep m" key]
      prepare_forward_error[of "value_prep m" val]
    by (auto simp: forward_scores_def and_then_def split: sum.splits)
  then show ?thesis by blast
qed

lemma forward_scores_fails:
  assumes "forward_scores m query key val msk = Inl e" and "shape query = [sq, b, w]"
  shows "forward m query key val msk keep = (Inl e, m)"
  using assms
  by (auto simp: forward_def forward_attn_def and_then_def)

text \<open>
  C2, amended: a three-axis mask whose first size is neither 1 nor \<open>Sq\<close>, whose second
  size is not the key's sequence length, or whose third size is neither 1 nor \<open>B\<close> makes
  the call fail with an AssertionError; a query, key or value whose trailing width is
  not \<open>d_model\<close> makes the call fail, with a RuntimeError unless the mask check has
  failed first.  Either way the component is left unchanged, \<open>attn\<close> included.  Nothing
  is said of a key and a value of different sequence lengths.
\<close>

theorem forward_rejects_bad_mask_and_width:
  assumes init: "MultiHeadAttention_init nh dm pr wb rnd = Inr m"
      and q: "shape query = [sq, b, w]"
      and k: "shape key = sk # ks"
  shows "(shape mk = [a, c, d] \<and> ((a \<noteq> 1 \<and> a \<noteq> sq) \<or> c \<noteq> sk \<or> (d \<noteq> 1 \<and> d \<noteq> b))
            \<longrightarrow> forward m query key val (Some mk) keep = (Inl AssertionError, m))
       \<and> (w \<noteq> nat dm \<or> last (shape key) \<noteq> nat dm \<or> shape val = [] \<or> last (shape val) \<noteq> nat dm
            \<longrightarrow> (\<exists>e. forward m query key val msk keep = (Inl e, m)
                      \<and> (e = RuntimeError
                         \<or> (case msk of
                               None \<Rightarrow> False
                             | Some mk' \<Rightarrow> prepare_mask mk' (shape query) (shape key) = Inl e))))"
proof (intro conjI impI)
  assume "shape mk = [a, c, d] \<and> ((a \<noteq> 1 \<and> a \<noteq> sq) \<or> c \<noteq> sk \<or> (d \<noteq> 1 \<and> d \<noteq> b))"
  then have "prepare_mask mk (shape query) (shape key) = Inl AssertionError"
    using q k by (auto simp: prepare_mask_def shape_get_def and_then_def)
  then show "forward m query key val (Some mk) keep = (Inl AssertionError, m)"
    using q by (simp add: forward_def forward_attn_def forward_scores_def and_then_def)
next
  assume bad: "w \<noteq> nat dm \<or> last (shape key) \<noteq> nat dm \<or> shape val = [] \<or> last (shape val) \<noteq> nat dm"
  note f = mha_init_Inr[OF init]
  have l: "length (shape query) = 3" using q by simp
  have "PrepareForMultiHeadAttention_forward (query_prep m) query = Inl RuntimeError
      \<or> PrepareForMultiHeadAttention_forward (key_prep m) key = Inl RuntimeError
      \<or> PrepareForMultiHeadAttention_forward (value_prep m) val = Inl RuntimeError"
    using bad q prep_forward_fail[OF f(5), of query] prep_forward_fail[OF f(6), of key]
      prep_forward_fail[OF f(7), of val]
    by auto
  from forward_scores_projection_fails[OF l this] obtain e where
    e: "forward_scores m query key val msk = Inl e"
       "e = RuntimeError
        \<or> (case msk of None \<Rightarrow> False
            | Some mk' \<Rightarrow> prepare_mask mk' (shape query) (shape key) = Inl e)"
    by blast
  from forward_scores_fails[OF e(1) q] e(2)
  show "\<exists>e. forward m query key val msk keep = (Inl e, m)
          \<and> (e = RuntimeError
             \<or> (case msk of
                   None \<Rightarrow> False
                 | Some mk' \<Rightarrow> prepare_mask mk' (shape query) (shape key) = Inl e))"
    by blast
qed

text \<open>C2, amended, on a mask of shape \<open>(1, 3, 1)\<close> against two key positions, together with a
  value of trailing width 5 where \<open>d_model = 2\<close>: with the mask the call fails with an
  AssertionError, without it with a RuntimeError.\<close>

theorem forward_rejects_bad_mask_and_width_witness:
  "case MultiHeadAttention_init 2 2 (1 / 10) True (\<lambda>_ _. 0) of
     Inl e \<Rightarrow> False
   | Inr m \<Rightarrow>
       shape (zeros [1, 2, 2] :: fval tensor) = [1, 2, 2]
       \<and> shape (zeros [2, 2, 2] :: fval tensor) = 2 # [2, 2]
       \<and> shape (zeros [1, 3, 1] :: real tensor) = [1, 3, 1] \<and> (3::nat) \<noteq> 2
       \<and> last (shape (zeros [2, 2, 5] :: fval tensor)) \<noteq> nat 2
       \<and> forward m (zeros [1, 2, 2]) (zeros [2, 2, 2]) (zeros [2, 2, 5])
            (Some (zeros [1, 3, 1])) (\<lambda>_. True) = (Inl AssertionError, m)
       \<and> forward m (zeros [1, 2, 2]) (zeros [2, 2, 2]) (zeros [2, 2, 5])
            None (\<lambda>_. True) = (Inl RuntimeError, m)"
proof -
  obtain m where m: "MultiHeadAttention_init 2 2 (1 / 10) True (\<lambda>_ _. 0) = Inr m"
    using mha_init_ok[of 2 2 "1 / 10" True "\<lambda>_ _. 0"] by auto
  have q: "shape (zeros [1, 2, 2] :: fval tensor) = [1, 2, 2]"
    and k: "shape (zeros [2, 2, 2] :: fval tensor) = 2 # [2, 2]"
    by (simp_all add: zeros_def)
  have s: "shape (zeros [1, 3, 1] :: real tensor) = [1, 3, 1]"
    "last (shape (zeros [2, 2, 5] :: fval tensor)) \<noteq> nat 2"
    by (simp_all add: zeros_def)
  note t1 = forward_rejects_bad_mask_and_width[OF m q k, where mk = "zeros [1, 3, 1]"
      and a = 1 and c = 3 and d = 1 and val = "zeros [2, 2, 5]" and keep = "\<lambda>_. True"
      and msk = "Some (zeros [1, 3, 1])"]
  note t2 = forward_rejects_bad_mask_and_width[OF m q k, where mk = "zeros [1, 3, 1]"
      and a = 1 and c = 3 and d = 1 and val = "zeros [2, 2, 5]" and keep = "\<lambda>_. True"
      and msk = None]
  from t1 s have a: "forward m (zeros [1, 2, 2]) (zeros [2, 2, 2]) (zeros [2, 2, 5])
            (Some (zeros [1, 3, 1])) (\<lambda>_. True) = (Inl AssertionError, m)" by simp
  from t2 s have b: "forward m (zeros [1, 2, 2]) (zeros [2, 2, 2]) (zeros [2, 2, 5])
            None (\<lambda>_. True) = (Inl RuntimeError, m)" by auto
  show ?thesis using m q k s a b by simp
qed

section \<open>Masked scores\<close>

lemma wf_scale_by: "wf_tensor T \<Longrightarrow> wf_tensor (scale_by T c)"
  by (simp add: wf_tensor_def scale_by_def)

lemma forward_scores_Inr:
  assumes "forward_scores m query key val msk = Inr (s, v)"
  shows "\<exists>q k e. length (shape query) = 3
           \<and> PrepareForMultiHeadAttention_forward (query_prep m) query = Inr q
           \<and> PrepareForMultiHeadAttention_forward (key_prep m) key = Inr k
           \<and> PrepareForMultiHeadAttention_forward (value_prep m) val = Inr v
           \<and> get_scores q k = Inr e
           \<and> (case msk of
                 None \<Rightarrow> s = scale_by e (scale m)
               | Some mk \<Rightarrow>
                   (\<exists>mk'. prepare_mask mk (shape query) (shape key) = Inr mk'
                      \<and> masked_fill (scale_by e (scale m)) (eq_scalar mk' 0) NInf = Inr s))"
  using assms
  by (auto simp: forward_scores_def and_then_def Let_def split: if_splits sum.splits option.splits)

text \<open>The score tensor has as many elements as its shape says.\<close>

lemma forward_scores_wf:
  assumes "forward_scores m query key val msk = Inr (s, v)"
  shows "wf_tensor s"
proof -
  from forward_scores_Inr[OF assms] obtain q k e where
    e: "get_scores q k = Inr e" and
    s: "case msk of
          None \<Rightarrow> s = scale_by e (scale m)
        | Some mk \<Rightarrow>
            (\<exists>mk'. prepare_mask mk (shape query) (shape key) = Inr mk'
               \<and> masked_fill (scale_by e (scale m)) (eq_scalar mk' 0) NInf = Inr s)"
    by blast
  from einsum_Inr[OF e[unfolded get_scores_def]] have wfe: "wf_tensor e" by blast
  show "wf_tensor s"
  proof (cases msk)
    case None
    then show ?thesis using s wfe by (simp add: wf_scale_by)
  next
    case (Some mk)
    then show ?thesis using s by (auto simp: masked_fill_def wf_tabulate split: option.splits)
  qed
qed

section \<open>Normalized weights\<close>

text \<open>
  C5, as stated, fails in two ways.  On a fully masked row (one head of width 1, one
  query and one key position, a mask holding 0 there) the score is \<open>-inf\<close> and the weight
  is NaN.  And without any mask, a query and a key holding \<open>2^70\<close> (one head of width 1,
  weights 1, no bias on the query and key projections) give the score \<open>2^140\<close>, which
  overflows to \<open>+inf\<close>, and the weight is NaN again.
\<close>

theorem masked_or_overflowed_row_gives_nan:
  "(case MultiHeadAttention_init 1 1 0 True (\<lambda>_ _. 0) of
      Inl e \<Rightarrow> False
    | Inr m \<Rightarrow>
        (case forward_attn m (zeros [1, 1, 1]) (zeros [1, 1, 1]) (zeros [1, 1, 1])
                (Some (zeros [1, 1, 1])) of
           Inl e \<Rightarrow> False
         | Inr (a, v) \<Rightarrow> shape a = [1, 1, 1, 1] \<and> elem_at a [0, 0, 0, 0] = NaN))
   \<and> (case MultiHeadAttention_init 1 1 0 False (\<lambda>_ _. 1) of
        Inl e \<Rightarrow> False
      | Inr m \<Rightarrow>
          (case forward_scores m \<lparr>shape = [1, 1, 1], elems = [Fin (2 ^ 70)]\<rparr>
                  \<lparr>shape = [1, 1, 1], elems = [Fin (2 ^ 70)]\<rparr> (zeros [1, 1, 1]) None of
             Inl e \<Rightarrow> False
           | Inr (s, v) \<Rightarrow> shape s = [1, 1, 1, 1] \<and> elem_at s [0, 0, 0, 0] = PInf
               \<and> elem_at (softmax s) [0, 0, 0, 0] = NaN))"
  by (simp add: evals)

text \<open>
  C5, amended: for every \<open>(i, b, h)\<close> whose scores over the key positions, as the softmax
  receives them, are each finite or \<open>-inf\<close> and not all \<open>-inf\<close>, the normalized weights
  over the key positions are finite and non-negative and sum to 1.  (A tensor has fewer
  than \<open>2^63\<close> key positions.)
\<close>

theorem weights_form_distribution_on_finite_rows:
  assumes fs: "forward_scores m query key val msk = Inr (s, v)"
      and sh: "shape s = [n0, n1, n2, n3]"
      and i: "i < n0" and b: "b < n1" and h: "h < n2" and n3: "n3 < 2 ^ 63"
      and row: "\<forall>j < n3. elem_at s [i, b, h, j] = NInf \<or> (\<exists>x. elem_at s [i, b, h, j] = Fin x)"
      and j0: "j0 < n3" and fin: "elem_at s [i, b, h, j0] \<noteq> NInf"
  shows "forward_attn m query key val msk = Inr (softmax s, v)
       \<and> (\<forall>j < n3. \<exists>w. elem_at (softmax s) [i, b, h, j] = Fin w \<and> 0 \<le> w)
       \<and> sum_elems (map (\<lambda>j. elem_at (softmax s) [i, b, h, j]) [0..<n3]) = Fin 1"
proof -
  have A: "forward_attn m query key val msk = Inr (softmax s, v)"
    using fs by (simp add: forward_attn_def and_then_def)
  have sh': "shape s = [n0, n1, n2] @ [n3]" using sh by simp
  have v: "valid_index [n0, n1, n2] [i, b, h]" using i b h by (simp add: valid_index_def)
  have row': "\<forall>j < n3. elem_at s ([i, b, h] @ [j]) = NInf
                \<or> (\<exists>x. elem_at s ([i, b, h] @ [j]) = Fin x)"
    using row by simp
  have fin': "elem_at s ([i, b, h] @ [j0]) \<noteq> NInf" using fin by simp
  from softmax_tensor_distribution[OF forward_scores_wf[OF fs] sh' v row' j0 fin' n3]
  show ?thesis using A by simp
qed

text \<open>C5, amended, on the row \<open>(0, 1, 1)\<close> of a call without a mask: two heads of width 1,
  batch 2, two key positions.\<close>

theorem weights_form_distribution_on_finite_rows_witness:
  "case MultiHeadAttention_init 2 2 0 True (\<lambda>_ _. 0) of
     Inl e \<Rightarrow> False
   | Inr m \<Rightarrow>
       (case forward_scores m (zeros [1, 2, 2]) (zeros [2, 2, 2]) (zeros [2, 2, 2]) None of
          Inl e \<Rightarrow> False
        | Inr (s, v) \<Rightarrow> shape s = [1, 2, 2, 2]
            \<and> elem_at s [0, 1, 1, 0] = Fin 0 \<and> elem_at s [0, 1, 1, 1] = Fin 0
            \<and> (\<forall>j < 2. \<exists>w. elem_at (softmax s) [0, 1, 1, j] = Fin w \<and> 0 \<le> w)
            \<and> sum_elems (map (\<lambda>j. elem_at (softmax s) [0, 1, 1, j]) [0..<2]) = Fin 1)"
proof -
  obtain m where m: "MultiHeadAttention_init 2 2 0 True (\<lambda>_ _. 0) = Inr m"
    using mha_init_ok[of 2 2 0 True "\<lambda>_ _. 0"] by auto
  have "case MultiHeadAttention_init 2 2 0 True (\<lambda>_ _. 0) of
          Inl e \<Rightarrow> False
        | Inr m \<Rightarrow>
            (case forward_scores m (zeros [1, 2, 2]) (zeros [2, 2, 2]) (zeros [2, 2, 2]) None of
               Inl e \<Rightarrow> False
             | Inr (s, v) \<Rightarrow> shape s = [1, 2, 2, 2]
                 \<and> elem_at s [0, 1, 1, 0] = Fin 0 \<and> elem_at s [0, 1, 1, 1] = Fin 0)"
    by (simp add: evals)
  then obtain s v where
    fs: "forward_scores m (zeros [1, 2, 2]) (zeros [2, 2, 2]) (zeros [2, 2, 2]) None = Inr (s, v)"
    and sh: "shape s = [1, 2, 2, 2]"
    and e0: "elem_at s [0, 1, 1, 0] = Fin 0" and e1: "elem_at s [0, 1, 1, 1] = Fin 0"
    using m by (auto split: sum.splits prod.splits)
  have row: "\<forall>j < 2. elem_at s [0, 1, 1, j] = NInf \<or> (\<exists>x. elem_at s [0, 1, 1, j] = Fin x)"
    using e0 e1 by (auto simp: less_2_cases_iff)
  have fin: "elem_at s [0, 1, 1, 0] \<noteq> NInf" using e0 by simp
  from weights_form_distribution_on_finite_rows[OF fs sh _ _ _ _ row _ fin]
  have "(\<forall>j < 2. \<exists>w. elem_at (softmax s) [0, 1, 1, j] = Fin w \<and> 0 \<le> w)
      \<and> sum_elems (map (\<lambda>j. elem_at (softmax s) [0, 1, 1, j]) [0..<2]) = Fin 1"
    by simp
  then show ?thesis using m fs sh e0 e1 by simp
qed

section \<open>Which positions the mask removes\<close>

text \<open>
  C4 (the code falls short of it): two heads of width 1, batch 2, one query and two key
  positions, all parameters and inputs 0, no dropout, and the mask \<open>[1, 0]\<close> of shape
  \<open>(1, 2, 1)\<close>, which marks key position 1 as not attendable.  The call returns a tensor,
  and the recorded weight of key position 1 is 1/2 for batch item 0 in both heads, while
  every weight of batch item 1 is NaN.
\<close>

theorem masked_key_position_keeps_weight:
  "case MultiHeadAttention_init 2 2 0 True (\<lambda>_ _. 0) of
     Inl e \<Rightarrow> False
   | Inr m \<Rightarrow>
       (case forward m (zeros [1, 2, 2]) (zeros [2, 2, 2]) (zeros [2, 2, 2])
               (Some \<lparr>shape = [1, 2, 1], elems = [1, 0]\<rparr>) (\<lambda>_. True) of
          (Inl e, m') \<Rightarrow> False
        | (Inr y, m') \<Rightarrow>
            (case attn m' of
               None \<Rightarrow> False
             | Some a \<Rightarrow>
                 elem_at \<lparr>shape = [1, 2, 1], elems = [1, 0 :: real]\<rparr> [0, 1, 0] = 0
                 \<and> shape a = [1, 2, 2, 2]
                 \<and> elem_at a [0, 0, 0, 1] = Fin (1 / 2) \<and> elem_at a [0, 0, 1, 1] = Fin (1 / 2)
                 \<and> elem_at a [0, 1, 0, 0] = NaN \<and> elem_at a [0, 1, 0, 1] = NaN))"
  by (simp add: evals)

text \<open>
  C10 (the code falls short of it): the same call with the mask \<open>[2, 0]\<close>.  The mask is
  compared with zero, so the entry 2 counts as attendable and the entry 0 as not.  But
  the entry 2 belongs to key position 0, whose score is \<open>-inf\<close> for batch item 1 in both
  heads, and the entry 0 belongs to key position 1, whose score stays finite for batch
  item 0 in both heads.
\<close>

theorem nonzero_mask_entry_leaves_its_key_position_masked:
  "case MultiHeadAttention_init 2 2 0 True (\<lambda>_ _. 0) of
     Inl e \<Rightarrow> False
   | Inr m \<Rightarrow>
       (case forward_scores m (zeros [1, 2, 2]) (zeros [2, 2, 2]) (zeros [2, 2, 2])
               (Some \<lparr>shape = [1, 2, 1], elems = [2, 0]\<rparr>) of
          Inl e \<Rightarrow> False
        | Inr (s, v) \<Rightarrow>
            elem_at \<lparr>shape = [1, 2, 1], elems = [2, 0 :: real]\<rparr> [0, 0, 0] = 2
            \<and> elem_at \<lparr>shape = [1, 2, 1], elems = [2, 0 :: real]\<rparr> [0, 1, 0] = 0
            \<and> shape s = [1, 2, 2, 2]
            \<and> elem_at s [0, 1, 0, 0] = NInf \<and> elem_at s [0, 1, 1, 0] = NInf
            \<and> elem_at s [0, 0, 0, 1] = Fin 0 \<and> elem_at s [0, 0, 1, 1] = Fin 0)"
  by (simp add: evals)

end
